theory Spec2Isabelle
  imports Complex_Main "HOL-Library.Multiset"
begin

section \<open>The GPS tracker backend: data model\<close>

text \<open>
  The source files hold successive revisions of one server. The development
  follows the most complete revision without authentication
  (\<^verbatim>\<open>src/unnamed/part_000\<close>): the route \<^verbatim>\<open>POST /api/location\<close>, the two
  read routes \<^verbatim>\<open>GET /api/locations/:userId\<close> and \<^verbatim>\<open>GET /api/admin/users\<close>, the
  admin timeline \<^verbatim>\<open>GET /api/admin/user/:userId\<close>, and the Socket.IO handlers
  \<^verbatim>\<open>register-user\<close>, \<^verbatim>\<open>send-location\<close>, \<^verbatim>\<open>join-admin-room\<close> and \<^verbatim>\<open>disconnect\<close>.

  Conventions of the embedding.
  \<^item> A JavaScript value that may be \<^verbatim>\<open>undefined\<close> is an \<open>option\<close>; request fields
    are taken at the types the Mongoose schema declares (\<^verbatim>\<open>String\<close>, \<^verbatim>\<open>Number\<close>),
    so \<^verbatim>\<open>null\<close> and values of another type are outside the model. JSON carries no
    \<^verbatim>\<open>NaN\<close>, so a number is falsy exactly when it is \<open>0\<close> and a string exactly when
    it is empty.
  \<^item> A \<^verbatim>\<open>Date\<close> is its number of milliseconds. One run of a handler reads the wall
    clock as the single value \<open>now\<close>: time passing between two statements of a
    handler is not represented.
  \<^item> A handler runs atomically on the server state; what the store's driver does
    with a write or a read (succeed or reject) is a parameter of the handler.
  \<^item> Every persistence and every emission is appended to the \<open>trace\<close> of the
    server, in program order.
\<close>

type_synonym timestamp = nat

text \<open>The body of \<^verbatim>\<open>POST /api/location\<close> and the argument of \<^verbatim>\<open>send-location\<close>.\<close>

record raw_location =
  userId :: "string option"
  latitude :: "real option"
  longitude :: "real option"
  accuracy :: "real option"

text \<open>A stored document of the model \<^verbatim>\<open>Location\<close> (\<^verbatim>\<open>locationSchema\<close>).\<close>

record location =
  loc_userId :: string
  loc_latitude :: real
  loc_longitude :: real
  loc_accuracy :: real
  loc_timestamp :: timestamp

text \<open>
  The object built by \<^verbatim>\<open>new Location({...})\<close>, before validation: the coordinates
  may still be \<^verbatim>\<open>undefined\<close>; \<^verbatim>\<open>timestamp\<close> has the schema's default \<^verbatim>\<open>Date.now\<close>.
\<close>

record draft =
  d_userId :: "string option"
  d_latitude :: "real option"
  d_longitude :: "real option"
  d_accuracy :: real
  d_timestamp :: timestamp

text \<open>The object literal passed to \<^verbatim>\<open>emit\<close>; a field that is \<^verbatim>\<open>undefined\<close> is \<open>None\<close>.\<close>

record payload =
  p_userId :: "string option"
  p_latitude :: "real option"
  p_longitude :: "real option"
  p_accuracy :: "real option"
  p_timestamp :: timestamp
  p_type :: "string option"

text \<open>A live Socket.IO connection: its id, \<^verbatim>\<open>socket.userId\<close> and its membership of
  the room \<^verbatim>\<open>admin-room\<close>.\<close>

record socket =
  sock_id :: nat
  sock_userId :: "string option"
  in_admin_room :: bool

datatype audience = Everyone | AdminRoom

text \<open>
  An effect of the server: a document written to the collection, or one call of
  \<^verbatim>\<open>emit\<close> with its audience, event name, payload and the ids of the sockets it
  reaches.
\<close>

datatype effect =
  Saved location
| Emit audience string payload "nat list"

record server =
  readyState :: nat
  locations :: "location list"
  sockets :: "socket list"
  trace :: "effect list"

text \<open>What a handler can throw: \<^verbatim>\<open>toString\<close> of \<^verbatim>\<open>undefined\<close>, a rejected
  \<^verbatim>\<open>save()\<close> (schema validation or the driver's write), a rejected query.\<close>

datatype exn = TypeError | ValidationError | WriteError | ReadError

text \<open>The three replies of \<^verbatim>\<open>POST /api/location\<close>: \<^verbatim>\<open>400 {error}\<close>,
  \<^verbatim>\<open>200 {success: true, saved}\<close> and, from the \<^verbatim>\<open>catch\<close>, \<^verbatim>\<open>500 {error}\<close>.\<close>

datatype post_response =
  Status400
| Status200 bool
| Status500 exn

section \<open>JavaScript operators used by the handlers\<close>

text \<open>\<^verbatim>\<open>!x\<close> for a string that may be undefined, and \<^verbatim>\<open>x || 0\<close> for a number that may be.\<close>

definition falsy_string :: "string option \<Rightarrow> bool" where
  "falsy_string u = (case u of None \<Rightarrow> True | Some s \<Rightarrow> s = [])"

definition or_zero :: "real option \<Rightarrow> real" where
  "or_zero a = (case a of None \<Rightarrow> 0 | Some x \<Rightarrow> if x = 0 then 0 else x)"

text \<open>\<^verbatim>\<open>x.toString()\<close>: the string itself; a \<^verbatim>\<open>TypeError\<close> on \<^verbatim>\<open>undefined\<close>.\<close>

definition toString :: "string option \<Rightarrow> exn + string" where
  "toString u = (case u of None \<Rightarrow> Inl TypeError | Some s \<Rightarrow> Inr s)"

section \<open>The store and the distributor\<close>

definition new_Location ::
  "timestamp \<Rightarrow> string option \<Rightarrow> real option \<Rightarrow> real option \<Rightarrow> real \<Rightarrow> draft" where
  "new_Location now u la lo ac =
     \<lparr>d_userId = u, d_latitude = la, d_longitude = lo, d_accuracy = ac, d_timestamp = now\<rparr>"

text \<open>Schema validation: \<^verbatim>\<open>userId\<close>, \<^verbatim>\<open>latitude\<close> and \<^verbatim>\<open>longitude\<close> are
  \<^verbatim>\<open>required: true\<close>.\<close>

definition validate :: "draft \<Rightarrow> location option" where
  "validate d =
     (case d_userId d of
        None \<Rightarrow> None
      | Some u \<Rightarrow>
          if u = [] then None
          else (case d_latitude d of
             None \<Rightarrow> None
           | Some la \<Rightarrow>
               (case d_longitude d of
                  None \<Rightarrow> None
                | Some lo \<Rightarrow>
                    Some \<lparr>loc_userId = u, loc_latitude = la, loc_longitude = lo,
                          loc_accuracy = d_accuracy d, loc_timestamp = d_timestamp d\<rparr>)))"

text \<open>\<^verbatim>\<open>location.save()\<close>: rejects on a validation error or when the driver's write
  fails (\<open>write_ok = False\<close>); otherwise the document is appended.\<close>

definition save :: "bool \<Rightarrow> draft \<Rightarrow> server \<Rightarrow> exn + location \<times> server" where
  "save write_ok d s =
     (case validate d of
        None \<Rightarrow> Inl ValidationError
      | Some l \<Rightarrow>
          if write_ok
          then Inr (l, s\<lparr>locations := locations s @ [l], trace := trace s @ [Saved l]\<rparr>)
          else Inl WriteError)"

definition all_ids :: "server \<Rightarrow> nat list" where
  "all_ids s = map sock_id (sockets s)"

definition admin_ids :: "server \<Rightarrow> nat list" where
  "admin_ids s = map sock_id (filter in_admin_room (sockets s))"

text \<open>\<^verbatim>\<open>io.emit(name, p)\<close> and \<^verbatim>\<open>io.to("admin-room").emit(name, p)\<close>.\<close>

definition io_emit :: "string \<Rightarrow> payload \<Rightarrow> server \<Rightarrow> server" where
  "io_emit name p s = s\<lparr>trace := trace s @ [Emit Everyone name p (all_ids s)]\<rparr>"

definition io_to_admin_emit :: "string \<Rightarrow> payload \<Rightarrow> server \<Rightarrow> server" where
  "io_to_admin_emit name p s = s\<lparr>trace := trace s @ [Emit AdminRoom name p (admin_ids s)]\<rparr>"

section \<open>Ingestion: \<^verbatim>\<open>POST /api/location\<close>\<close>

text \<open>The emit section of the route (\<^verbatim>\<open>// EMITIR SIEMPRE\<close>): \<^verbatim>\<open>locationUpdate\<close> to
  every socket, then \<^verbatim>\<open>adminLocationUpdate\<close> to the admin room.\<close>

definition emit_position :: "raw_location \<Rightarrow> timestamp \<Rightarrow> server \<Rightarrow> server" where
  "emit_position body ts s =
     io_to_admin_emit ''adminLocationUpdate''
       \<lparr>p_userId = userId body, p_latitude = latitude body, p_longitude = longitude body,
        p_accuracy = accuracy body, p_timestamp = ts, p_type = Some ''user_update''\<rparr>
       (io_emit ''locationUpdate''
          \<lparr>p_userId = userId body, p_latitude = latitude body, p_longitude = longitude body,
           p_accuracy = accuracy body, p_timestamp = ts, p_type = None\<rparr> s)"

text \<open>
  The persistence attempt of the route: \<open>Inl\<close> is the exception thrown by
  \<^verbatim>\<open>await location.save()\<close>; \<open>Inr (None, s)\<close> is \<^verbatim>\<open>location\<close> left undefined because
  \<^verbatim>\<open>readyState\<close> is not 1.
\<close>

definition persist_attempt ::
  "timestamp \<Rightarrow> bool \<Rightarrow> raw_location \<Rightarrow> server \<Rightarrow> exn + location option \<times> server" where
  "persist_attempt now write_ok body s =
     (if readyState s = 1
      then (case toString (userId body) of
              Inl e \<Rightarrow> Inl e
            | Inr u \<Rightarrow>
                (case save write_ok
                        (new_Location now (Some u) (latitude body) (longitude body)
                           (or_zero (accuracy body))) s of
                   Inl e \<Rightarrow> Inl e
                 | Inr (l, s') \<Rightarrow> Inr (Some l, s')))
      else Inr (None, s))"

definition post_location ::
  "timestamp \<Rightarrow> bool \<Rightarrow> raw_location \<Rightarrow> server \<Rightarrow> post_response \<times> server" where
  "post_location now write_ok body s =
     (if falsy_string (userId body) \<or> latitude body = None \<or> longitude body = None
      then (Status400, s)
      else case persist_attempt now write_ok body s of
        Inl e \<Rightarrow> (Status500 e, s)
      | Inr (location, s') \<Rightarrow>
          (Status200 (location \<noteq> None),
           emit_position body (case location of Some l \<Rightarrow> loc_timestamp l | None \<Rightarrow> now) s'))"

section \<open>Ingestion: the \<^verbatim>\<open>send-location\<close> handler\<close>

text \<open>
  The handler forwards first (\<^verbatim>\<open>{...loc, type, timestamp}\<close> to the admin room, then
  \<^verbatim>\<open>{...loc, timestamp}\<close> to every socket) and saves afterwards; a rejected
  \<^verbatim>\<open>save()\<close> is caught and logged.
\<close>

definition on_send_location ::
  "timestamp \<Rightarrow> bool \<Rightarrow> raw_location option \<Rightarrow> server \<Rightarrow> server" where
  "on_send_location now write_ok loc s =
     (case loc of
        None \<Rightarrow> s
      | Some l \<Rightarrow>
          if falsy_string (userId l) then s
          else
            let s1 = io_to_admin_emit ''adminLocationUpdate''
                       \<lparr>p_userId = userId l, p_latitude = latitude l, p_longitude = longitude l,
                        p_accuracy = accuracy l, p_timestamp = now,
                        p_type = Some ''user_update''\<rparr> s;
                s2 = io_emit ''locationUpdate''
                       \<lparr>p_userId = userId l, p_latitude = latitude l, p_longitude = longitude l,
                        p_accuracy = accuracy l, p_timestamp = now, p_type = None\<rparr> s1
            in if readyState s2 = 1
               then (case save write_ok
                            (new_Location now (userId l) (latitude l) (longitude l)
                               (or_zero (accuracy l))) s2 of
                       Inl e \<Rightarrow> s2
                     | Inr (d, s3) \<Rightarrow> s3)
               else s2)"

section \<open>Presence: connection, \<^verbatim>\<open>register-user\<close>, \<^verbatim>\<open>join-admin-room\<close>, \<^verbatim>\<open>disconnect\<close>\<close>

text \<open>The argument of \<^verbatim>\<open>register-user\<close>.\<close>

record register_data =
  reg_userId :: "string option"

text \<open>A new connection: Socket.IO gives it an id no live socket has.\<close>

definition on_connection :: "nat \<Rightarrow> server \<Rightarrow> server" where
  "on_connection sid s =
     (if sid \<in> set (all_ids s) then s
      else s\<lparr>sockets := sockets s @
                 [\<lparr>sock_id = sid, sock_userId = None, in_admin_room = False\<rparr>]\<rparr>)"

definition set_userId :: "nat \<Rightarrow> string \<Rightarrow> server \<Rightarrow> server" where
  "set_userId sid u s =
     s\<lparr>sockets := map (\<lambda>c. if sock_id c = sid then c\<lparr>sock_userId := Some u\<rparr> else c)
                     (sockets s)\<rparr>"

definition presence :: "string option \<Rightarrow> string \<Rightarrow> timestamp \<Rightarrow> payload" where
  "presence u kind now =
     \<lparr>p_userId = u, p_latitude = None, p_longitude = None, p_accuracy = None,
      p_timestamp = now, p_type = Some kind\<rparr>"

definition on_register_user ::
  "timestamp \<Rightarrow> nat \<Rightarrow> register_data option \<Rightarrow> server \<Rightarrow> server" where
  "on_register_user now sid data s =
     (if sid \<notin> set (all_ids s) then s
      else case data of
        None \<Rightarrow> s
      | Some d \<Rightarrow>
          if falsy_string (reg_userId d) then s
          else (case toString (reg_userId d) of
                  Inl e \<Rightarrow> s
                | Inr u \<Rightarrow>
                    io_to_admin_emit ''adminLocationUpdate''
                      (presence (Some u) ''user_connected'' now) (set_userId sid u s)))"

definition on_join_admin_room :: "nat \<Rightarrow> server \<Rightarrow> server" where
  "on_join_admin_room sid s =
     s\<lparr>sockets := map (\<lambda>c. if sock_id c = sid then c\<lparr>in_admin_room := True\<rparr> else c)
                     (sockets s)\<rparr>"

text \<open>
  When \<^verbatim>\<open>disconnect\<close> fires the socket has left the server and its rooms; the handler
  then tells the admin room if \<^verbatim>\<open>socket.userId\<close> is set.
\<close>

definition on_disconnect :: "timestamp \<Rightarrow> nat \<Rightarrow> server \<Rightarrow> server" where
  "on_disconnect now sid s =
     (case find (\<lambda>c. sock_id c = sid) (sockets s) of
        None \<Rightarrow> s
      | Some c \<Rightarrow>
          let s' = s\<lparr>sockets := filter (\<lambda>c. sock_id c \<noteq> sid) (sockets s)\<rparr>
          in if falsy_string (sock_userId c) then s'
             else io_to_admin_emit ''adminLocationUpdate''
                    (presence (sock_userId c) ''user_disconnected'' now) s')"

section \<open>Queries\<close>

subsection \<open>\<^verbatim>\<open>parseInt(req.query.limit) || 50\<close>\<close>

text \<open>
  The query argument is a JavaScript string: a list of UTF-16 code units, here
  natural numbers. \<^verbatim>\<open>parseInt\<close> without a radix skips leading white space (the
  white space and line terminators of the language: tab, line feed, vertical tab,
  form feed, carriage return, space, no-break space, the other space separators of
  Unicode, line and paragraph separator, and the byte order mark), then reads an
  optional sign, then \<^verbatim>\<open>0x\<close> or \<^verbatim>\<open>0X\<close> selects radix 16; the longest prefix of digits
  is read and \<^verbatim>\<open>NaN\<close> (here \<open>None\<close>) is the result when it is empty. The integer
  is exact, as a JavaScript number is below \<open>2^53\<close>.
\<close>

type_synonym js_string = "nat list"

definition is_white_space :: "nat \<Rightarrow> bool" where
  "is_white_space n =
     ((9 \<le> n \<and> n \<le> 13) \<or> n = 32 \<or> n = 160 \<or> n = 5760 \<or> (8192 \<le> n \<and> n \<le> 8202)
      \<or> n = 8232 \<or> n = 8233 \<or> n = 8239 \<or> n = 8287 \<or> n = 12288 \<or> n = 65279)"

definition digit_value :: "nat \<Rightarrow> nat option" where
  "digit_value n =
     (if 48 \<le> n \<and> n \<le> 57 then Some (n - 48)
      else if 97 \<le> n \<and> n \<le> 122 then Some (n - 87)
      else if 65 \<le> n \<and> n \<le> 90 then Some (n - 55)
      else None)"

definition radix_digit :: "nat \<Rightarrow> nat \<Rightarrow> bool" where
  "radix_digit r c = (case digit_value c of None \<Rightarrow> False | Some v \<Rightarrow> v < r)"

definition digits_value :: "nat \<Rightarrow> js_string \<Rightarrow> nat" where
  "digits_value r ds =
     foldl (\<lambda>acc c. case digit_value c of None \<Rightarrow> acc | Some v \<Rightarrow> acc * r + v) 0 ds"

text \<open>The sign: \<^verbatim>\<open>-\<close> is the code unit 45, \<^verbatim>\<open>+\<close> is 43.\<close>

fun strip_sign :: "js_string \<Rightarrow> bool \<times> js_string" where
  "strip_sign [] = (False, [])"
| "strip_sign (c # cs) =
     (if c = 45 then (True, cs)
      else if c = 43 then (False, cs)
      else (False, c # cs))"

text \<open>The radix prefix: \<^verbatim>\<open>0\<close> is 48, \<^verbatim>\<open>x\<close> is 120, \<^verbatim>\<open>X\<close> is 88.\<close>

fun strip_radix :: "js_string \<Rightarrow> nat \<times> js_string" where
  "strip_radix (a # b # cs) =
     (if a = 48 \<and> (b = 120 \<or> b = 88) then (16, cs)
      else (10, a # b # cs))"
| "strip_radix cs = (10, cs)"

definition parseInt :: "js_string option \<Rightarrow> int option" where
  "parseInt q =
     (case q of
        None \<Rightarrow> None
      | Some str \<Rightarrow>
          (case strip_sign (dropWhile is_white_space str) of
             (neg, s2) \<Rightarrow>
               (case strip_radix s2 of
                  (r, s3) \<Rightarrow>
                    let z = takeWhile (radix_digit r) s3
                    in if z = [] then None
                       else Some (if neg then - int (digits_value r z)
                                  else int (digits_value r z)))))"

text \<open>The code units of a text of ASCII characters.\<close>

definition code_units :: "string \<Rightarrow> js_string" where
  "code_units str = map of_char str"

text \<open>\<^verbatim>\<open>n || dflt\<close> on the result of \<^verbatim>\<open>parseInt\<close>: \<^verbatim>\<open>NaN\<close> and \<open>0\<close> are falsy.\<close>

definition or_default :: "int option \<Rightarrow> int \<Rightarrow> int" where
  "or_default n dflt = (case n of None \<Rightarrow> dflt | Some k \<Rightarrow> if k = 0 then dflt else k)"

subsection \<open>The store's read operations\<close>

text \<open>
  \<^verbatim>\<open>.sort({timestamp: -1})\<close> and \<^verbatim>\<open>.sort({timestamp: 1})\<close>; the order among equal
  timestamps is the store's choice, here the one of a stable sort.
  \<^verbatim>\<open>.limit(n)\<close>: \<open>0\<close> is no limit and a negative \<open>n\<close> limits to \<open>|n|\<close>.
\<close>

definition sort_asc :: "('a \<Rightarrow> timestamp) \<Rightarrow> 'a list \<Rightarrow> 'a list" where
  "sort_asc f xs = sort_key f xs"

definition sort_desc :: "('a \<Rightarrow> timestamp) \<Rightarrow> 'a list \<Rightarrow> 'a list" where
  "sort_desc f xs = rev (sort_key f xs)"

definition limit_docs :: "int \<Rightarrow> 'a list \<Rightarrow> 'a list" where
  "limit_docs n xs = (if n = 0 then xs else take (nat \<bar>n\<bar>) xs)"

definition find_by_userId :: "string \<Rightarrow> location list \<Rightarrow> location list" where
  "find_by_userId u xs = filter (\<lambda>l. loc_userId l = u) xs"

text \<open>A query is rejected when the driver's read fails (\<open>read_ok = False\<close>).\<close>

definition run_query :: "bool \<Rightarrow> 'a list \<Rightarrow> exn + 'a list" where
  "run_query read_ok result = (if read_ok then Inr result else Inl ReadError)"

subsection \<open>\<^verbatim>\<open>GET /api/locations/:userId\<close> and \<^verbatim>\<open>GET /api/admin/user/:userId\<close>\<close>

definition get_locations ::
  "bool \<Rightarrow> string \<Rightarrow> js_string option \<Rightarrow> server \<Rightarrow> location list" where
  "get_locations read_ok uid q s =
     (if readyState s \<noteq> 1 then []
      else let limit = or_default (parseInt q) 50
           in case run_query read_ok
                     (limit_docs limit
                        (sort_desc loc_timestamp (find_by_userId uid (locations s)))) of
                Inl e \<Rightarrow> []
              | Inr locs \<Rightarrow> locs)"

text \<open>The admin timeline answers \<^verbatim>\<open>500\<close> (here \<open>Inl\<close>) when the read is rejected.\<close>

definition get_admin_user ::
  "bool \<Rightarrow> string \<Rightarrow> js_string option \<Rightarrow> server \<Rightarrow> exn + location list" where
  "get_admin_user read_ok uid q s =
     (let limit = or_default (parseInt q) 500
      in if readyState s \<noteq> 1 then Inr []
         else run_query read_ok
                (limit_docs limit
                   (sort_asc loc_timestamp (find_by_userId uid (locations s)))))"

subsection \<open>\<^verbatim>\<open>GET /api/admin/users\<close>: the aggregation pipeline\<close>

text \<open>The accumulator of \<^verbatim>\<open>$group\<close> for one \<^verbatim>\<open>_id\<close>, and one row of the answer.\<close>

record group =
  g_id :: string
  g_lastLocation :: location
  g_locationCount :: nat
  g_firstSeen :: timestamp
  g_lastSeen :: timestamp

record user_view =
  uv_userId :: string
  uv_latitude :: real
  uv_longitude :: real
  uv_accuracy :: real
  uv_lastSeen :: timestamp
  uv_firstSeen :: timestamp
  uv_locationCount :: nat

text \<open>
  \<^verbatim>\<open>$group\<close> reads the documents in order. The first document of a key opens its
  group (\<^verbatim>\<open>$first: "$$ROOT"\<close>); each later one updates \<^verbatim>\<open>$sum: 1\<close>, \<^verbatim>\<open>$min\<close> and
  \<^verbatim>\<open>$max\<close> of the timestamp.
\<close>

fun accumulate :: "location \<Rightarrow> group list \<Rightarrow> group list" where
  "accumulate l [] =
     [\<lparr>g_id = loc_userId l, g_lastLocation = l, g_locationCount = 1,
       g_firstSeen = loc_timestamp l, g_lastSeen = loc_timestamp l\<rparr>]"
| "accumulate l (g # gs) =
     (if g_id g = loc_userId l
      then g\<lparr>g_locationCount := g_locationCount g + 1,
             g_firstSeen := min (g_firstSeen g) (loc_timestamp l),
             g_lastSeen := max (g_lastSeen g) (loc_timestamp l)\<rparr> # gs
      else g # accumulate l gs)"

definition group_stage :: "location list \<Rightarrow> group list" where
  "group_stage xs = foldl (\<lambda>gs l. accumulate l gs) [] xs"

definition project :: "group \<Rightarrow> user_view" where
  "project g =
     \<lparr>uv_userId = g_id g,
      uv_latitude = loc_latitude (g_lastLocation g),
      uv_longitude = loc_longitude (g_lastLocation g),
      uv_accuracy = loc_accuracy (g_lastLocation g),
      uv_lastSeen = g_lastSeen g,
      uv_firstSeen = g_firstSeen g,
      uv_locationCount = g_locationCount g\<rparr>"

definition aggregate :: "location list \<Rightarrow> user_view list" where
  "aggregate xs =
     sort_desc uv_lastSeen (map project (group_stage (sort_desc loc_timestamp xs)))"

definition get_admin_users :: "bool \<Rightarrow> server \<Rightarrow> user_view list" where
  "get_admin_users read_ok s =
     (if readyState s \<noteq> 1 then []
      else case run_query read_ok (aggregate (locations s)) of
        Inl e \<Rightarrow> []
      | Inr users \<Rightarrow> users)"

section \<open>The life of one connection\<close>

text \<open>The messages a connected client sends, each with the clock reading (and the
  driver's answer) of the run of its handler.\<close>

datatype client_msg =
  RegisterUser timestamp "register_data option"
| SendLocation timestamp bool "raw_location option"
| JoinAdminRoom

fun on_message :: "nat \<Rightarrow> client_msg \<Rightarrow> server \<Rightarrow> server" where
  "on_message sid (RegisterUser now data) s = on_register_user now sid data s"
| "on_message sid (SendLocation now write_ok loc) s = on_send_location now write_ok loc s"
| "on_message sid JoinAdminRoom s = on_join_admin_room sid s"

text \<open>A whole connection: connect, the messages in order, disconnect.\<close>

definition connected_run :: "nat \<Rightarrow> client_msg list \<Rightarrow> server \<Rightarrow> server" where
  "connected_run sid msgs s = foldl (\<lambda>st m. on_message sid m st) (on_connection sid s) msgs"

definition session :: "nat \<Rightarrow> client_msg list \<Rightarrow> timestamp \<Rightarrow> server \<Rightarrow> server" where
  "session sid msgs t_end s = on_disconnect t_end sid (connected_run sid msgs s)"

section \<open>Observations\<close>

text \<open>What the socket \<open>sid\<close> receives from a list of effects, in order.\<close>

fun received :: "nat \<Rightarrow> effect list \<Rightarrow> (string \<times> payload) list" where
  "received sid [] = []"
| "received sid (Saved l # es) = received sid es"
| "received sid (Emit a name p ids # es) =
     (if sid \<in> set ids then (name, p) # received sid es else received sid es)"

text \<open>The presence events of a trace, each with its audience, payload and
  recipients: the emissions typed \<^verbatim>\<open>user_connected\<close> or \<^verbatim>\<open>user_disconnected\<close>.\<close>

fun presence_events :: "effect list \<Rightarrow> (audience \<times> payload \<times> nat list) list" where
  "presence_events [] = []"
| "presence_events (Saved l # es) = presence_events es"
| "presence_events (Emit a name p ids # es) =
     (if p_type p = Some ''user_connected'' \<or> p_type p = Some ''user_disconnected''
      then (a, p, ids) # presence_events es
      else presence_events es)"

text \<open>The \<^verbatim>\<open>register-user\<close> messages that carry a subject identifier, each with the
  clock reading of its handler.\<close>

fun registrations :: "client_msg list \<Rightarrow> (timestamp \<times> string) list" where
  "registrations [] = []"
| "registrations (RegisterUser now (Some d) # ms) =
     (case reg_userId d of
        None \<Rightarrow> registrations ms
      | Some u \<Rightarrow> if u = [] then registrations ms else (now, u) # registrations ms)"
| "registrations (m # ms) = registrations ms"

text \<open>An input that has its subject identifier and both coordinates.\<close>

definition valid_input :: "raw_location \<Rightarrow> bool" where
  "valid_input body =
     (\<not> falsy_string (userId body) \<and> latitude body \<noteq> None \<and> longitude body \<noteq> None)"

text \<open>The document either channel builds from an input, after validation, and the
  server once it is written.\<close>

definition stored_doc :: "timestamp \<Rightarrow> raw_location \<Rightarrow> location option" where
  "stored_doc now body =
     validate (new_Location now (userId body) (latitude body) (longitude body)
                 (or_zero (accuracy body)))"

definition with_doc :: "location \<Rightarrow> server \<Rightarrow> server" where
  "with_doc l s = s\<lparr>locations := locations s @ [l], trace := trace s @ [Saved l]\<rparr>"

text \<open>The subject a connection is bound to after its registrations: the last one
  wins.\<close>

definition last_subject :: "(timestamp \<times> string) list \<Rightarrow> string option" where
  "last_subject rs = (if rs = [] then None else Some (snd (last rs)))"

text \<open>
  The \<^verbatim>\<open>user_connected\<close> events expected from the messages of the connection \<open>sid\<close>,
  opened on a server whose admin room holds the sockets \<open>admins\<close>: one for each
  registration, naming its subject and clock reading, received by \<open>admins\<close> and by
  the connection itself when it has joined the room before (\<open>joined\<close>).
\<close>

fun announced ::
  "nat list \<Rightarrow> nat \<Rightarrow> bool \<Rightarrow> client_msg list \<Rightarrow> (audience \<times> payload \<times> nat list) list" where
  "announced admins sid joined [] = []"
| "announced admins sid joined (JoinAdminRoom # ms) = announced admins sid True ms"
| "announced admins sid joined (SendLocation now w loc # ms) = announced admins sid joined ms"
| "announced admins sid joined (RegisterUser now data # ms) =
     (case registrations [RegisterUser now data] of
        [] \<Rightarrow> announced admins sid joined ms
      | (t, u) # rest \<Rightarrow>
          (AdminRoom,
           \<lparr>p_userId = Some u, p_latitude = None, p_longitude = None, p_accuracy = None,
            p_timestamp = t, p_type = Some ''user_connected''\<rparr>,
           admins @ (if joined then [sid] else [])) # announced admins sid joined ms)"

text \<open>Whether the connection joins the admin room before its first registration.\<close>

fun joined_first :: "client_msg list \<Rightarrow> bool" where
  "joined_first [] = False"
| "joined_first (JoinAdminRoom # ms) = True"
| "joined_first (SendLocation now w loc # ms) = joined_first ms"
| "joined_first (RegisterUser now data # ms) =
     (registrations [RegisterUser now data] = [] \<and> joined_first ms)"

text \<open>
  The state \<open>st\<close> of the server after the connection \<open>sid\<close>, opened on \<open>s\<close>, has sent
  \<open>msgs\<close>: its socket is the last one, bound to the last registered subject, in the
  admin room if it has joined, and the presence events so far are the expected
  \<^verbatim>\<open>user_connected\<close> events.
\<close>

definition run_state :: "nat \<Rightarrow> client_msg list \<Rightarrow> server \<Rightarrow> server \<Rightarrow> bool" where
  "run_state sid msgs s st =
     (\<exists>c. sockets st = sockets s @ [c] \<and> sock_id c = sid
        \<and> sock_userId c = last_subject (registrations msgs)
        \<and> in_admin_room c = (JoinAdminRoom \<in> set msgs)
        \<and> presence_events (trace st) =
            presence_events (trace s) @ announced (admin_ids s) sid False msgs)"

text \<open>
  What the accumulator \<open>g\<close> of \<^verbatim>\<open>$group\<close> must hold once the documents \<open>xs\<close> have been
  read: the first document of its key, their number, and the least and greatest of
  their timestamps.
\<close>

definition group_of :: "location list \<Rightarrow> group \<Rightarrow> bool" where
  "group_of xs g =
     (let ms = find_by_userId (g_id g) xs
      in ms \<noteq> [] \<and> g_lastLocation g = hd ms \<and> g_locationCount g = length ms
         \<and> g_firstSeen g = Min (loc_timestamp ` set ms)
         \<and> g_lastSeen g = Max (loc_timestamp ` set ms))"

text \<open>The newest timestamp among the reports of one subject.\<close>

definition last_seen :: "string \<Rightarrow> location list \<Rightarrow> timestamp" where
  "last_seen u xs = Max (loc_timestamp ` set (find_by_userId u xs))"

section \<open>Example states\<close>

text \<open>A connected store with an admin socket 1 and a plain socket 2; the same with
  the store disconnected; a store holding three reports of A and one of B.\<close>

definition demo_server :: server where
  "demo_server =
     \<lparr>readyState = 1, locations = [],
      sockets = [\<lparr>sock_id = 1, sock_userId = None, in_admin_room = True\<rparr>,
                 \<lparr>sock_id = 2, sock_userId = None, in_admin_room = False\<rparr>],
      trace = []\<rparr>"

definition offline_server :: server where
  "offline_server = demo_server\<lparr>readyState := 0\<rparr>"

definition report :: "string \<Rightarrow> real \<Rightarrow> real \<Rightarrow> timestamp \<Rightarrow> location" where
  "report u la lo t =
     \<lparr>loc_userId = u, loc_latitude = la, loc_longitude = lo, loc_accuracy = 0,
      loc_timestamp = t\<rparr>"

definition demo_store :: server where
  "demo_store =
     demo_server\<lparr>locations :=
       [report ''A'' 10 20 100, report ''B'' 50 60 100, report ''A'' 11 21 300,
        report ''A'' 12 22 200]\<rparr>"

text \<open>A store holding five reports of A (and one of B) for the history query.\<close>

definition history_store :: server where
  "history_store =
     demo_server\<lparr>locations :=
       [report ''A'' 10 20 100, report ''A'' 13 23 400, report ''B'' 50 60 250,
        report ''A'' 11 21 200, report ''A'' 14 24 500, report ''A'' 12 22 300]\<rparr>"

definition demo_body :: raw_location where
  "demo_body = \<lparr>userId = Some ''u1'', latitude = Some 1, longitude = Some 2, accuracy = None\<rparr>"

text \<open>An input without latitude, the messages of a connection that registers
  twice, and those of one that registers once, before resp. after joining the admin
  room.\<close>

definition no_latitude :: raw_location where
  "no_latitude = \<lparr>userId = Some ''u1'', latitude = None, longitude = Some 2, accuracy = None\<rparr>"

definition demo_msgs :: "client_msg list" where
  "demo_msgs =
     [RegisterUser 5 (Some \<lparr>reg_userId = Some ''S1''\<rparr>), JoinAdminRoom,
      SendLocation 6 True (Some demo_body), RegisterUser 7 None,
      RegisterUser 8 (Some \<lparr>reg_userId = Some ''S2''\<rparr>)]"

definition register_then_join :: "client_msg list" where
  "register_then_join =
     [RegisterUser 5 (Some \<lparr>reg_userId = Some ''S''\<rparr>),
      SendLocation 6 True (Some demo_body), JoinAdminRoom]"

definition join_then_register :: "client_msg list" where
  "join_then_register =
     [JoinAdminRoom, RegisterUser 4 (Some \<lparr>reg_userId = None\<rparr>),
      RegisterUser 5 (Some \<lparr>reg_userId = Some ''S''\<rparr>)]"

section \<open>Facts about the handlers\<close>

lemmas emit_defs = emit_position_def io_emit_def io_to_admin_emit_def
lemmas save_defs = persist_attempt_def save_def validate_def new_Location_def toString_def

lemma valid_inputE:
  assumes "valid_input body"
  obtains u la lo where "userId body = Some u" "u \<noteq> []"
    "latitude body = Some la" "longitude body = Some lo"
  using assms by (auto simp: valid_input_def falsy_string_def split: option.splits)

lemma stored_doc_valid:
  assumes "valid_input body"
  shows "\<exists>l. stored_doc now body = Some l \<and> Some (loc_userId l) = userId body
     \<and> Some (loc_latitude l) = latitude body \<and> Some (loc_longitude l) = longitude body
     \<and> loc_accuracy l = or_zero (accuracy body) \<and> loc_timestamp l = now"
  using assms
  by (elim valid_inputE) (simp add: stored_doc_def validate_def new_Location_def)

text \<open>The four outcomes of \<^verbatim>\<open>POST /api/location\<close>.\<close>

lemma post_location_rejected:
  "\<not> valid_input body \<Longrightarrow> post_location now w body s = (Status400, s)"
  by (auto simp: valid_input_def post_location_def)

lemma post_location_offline:
  "valid_input body \<Longrightarrow> readyState s \<noteq> 1 \<Longrightarrow>
   post_location now w body s = (Status200 False, emit_position body now s)"
  by (auto simp: valid_input_def post_location_def persist_attempt_def)

lemma post_location_write_error:
  "valid_input body \<Longrightarrow> readyState s = 1 \<Longrightarrow>
   post_location now False body s = (Status500 WriteError, s)"
  by (erule valid_inputE) (simp add: post_location_def save_defs falsy_string_def)

lemma post_location_saved:
  "valid_input body \<Longrightarrow> readyState s = 1 \<Longrightarrow> stored_doc now body = Some l \<Longrightarrow>
   post_location now True body s = (Status200 True, emit_position body now (with_doc l s))"
  by (erule valid_inputE)
     (auto simp: post_location_def save_defs falsy_string_def stored_doc_def with_doc_def)

lemma post_location_accepted:
  assumes "post_location now write_ok body s = (Status200 saved, s')"
  shows "\<exists>t s1. s' = emit_position body t s1 \<and> sockets s1 = sockets s"
proof -
  have v: "valid_input body"
    using assms post_location_rejected[of body now write_ok s] by auto
  show ?thesis
  proof (cases "readyState s = 1")
    case False
    with v assms show ?thesis by (auto simp: post_location_offline)
  next
    case True
    from v obtain l where l: "stored_doc now body = Some l"
      using stored_doc_valid by blast
    show ?thesis
    proof (cases write_ok)
      case True
      with v l \<open>readyState s = 1\<close> assms
      have "s' = emit_position body now (with_doc l s)"
        by (simp add: post_location_saved)
      moreover have "sockets (with_doc l s) = sockets s"
        by (simp add: with_doc_def)
      ultimately show ?thesis by blast
    next
      case False
      with v \<open>readyState s = 1\<close> assms show ?thesis
        by (simp add: post_location_write_error)
    qed
  qed
qed

text \<open>The outcomes of \<^verbatim>\<open>send-location\<close>.\<close>

lemma on_send_location_dropped:
  "falsy_string (userId loc) \<Longrightarrow> on_send_location now w (Some loc) s = s"
  by (simp add: on_send_location_def)

lemma on_send_location_forwarded:
  assumes "\<not> falsy_string (userId loc)"
    and "readyState s \<noteq> 1 \<or> \<not> w \<or> latitude loc = None \<or> longitude loc = None"
  shows "on_send_location now w (Some loc) s =
     io_emit ''locationUpdate''
       \<lparr>p_userId = userId loc, p_latitude = latitude loc, p_longitude = longitude loc,
        p_accuracy = accuracy loc, p_timestamp = now, p_type = None\<rparr>
       (io_to_admin_emit ''adminLocationUpdate''
          \<lparr>p_userId = userId loc, p_latitude = latitude loc, p_longitude = longitude loc,
           p_accuracy = accuracy loc, p_timestamp = now, p_type = Some ''user_update''\<rparr> s)"
  using assms
  by (auto simp: on_send_location_def Let_def save_def validate_def new_Location_def
      io_emit_def io_to_admin_emit_def split: option.splits)

lemma on_send_location_saved:
  assumes "valid_input loc" and "readyState s = 1" and "stored_doc now loc = Some l"
  shows "on_send_location now True (Some loc) s =
     with_doc l
       (io_emit ''locationUpdate''
          \<lparr>p_userId = userId loc, p_latitude = latitude loc, p_longitude = longitude loc,
           p_accuracy = accuracy loc, p_timestamp = now, p_type = None\<rparr>
          (io_to_admin_emit ''adminLocationUpdate''
             \<lparr>p_userId = userId loc, p_latitude = latitude loc, p_longitude = longitude loc,
              p_accuracy = accuracy loc, p_timestamp = now, p_type = Some ''user_update''\<rparr> s))"
  using assms
  by (auto simp: on_send_location_def Let_def save_def stored_doc_def with_doc_def
      valid_input_def io_emit_def io_to_admin_emit_def split: option.splits)

lemma on_send_location_sockets:
  "sockets (on_send_location now w loc s) = sockets s"
  by (auto simp: on_send_location_def Let_def io_emit_def io_to_admin_emit_def save_def
      split: option.splits sum.splits)

lemma admin_ids_member:
  "distinct (all_ids s) \<Longrightarrow> c \<in> set (sockets s) \<Longrightarrow>
   sock_id c \<in> set (admin_ids s) \<longleftrightarrow> in_admin_room c"
  unfolding all_ids_def admin_ids_def
  by (auto simp: distinct_map inj_on_def)

section \<open>Ingestion\<close>

text \<open>
  C1. An input without subject identifier, latitude or longitude must cause no
  event and no record on either channel; the route reports the invalid input, the
  push handler drops it. The route does so (first conjunct), and the push handler
  does so for a missing subject identifier (second and third). For a missing
  coordinate the push handler does not: with the subject identifier present and a
  coordinate absent it emits both events, without the coordinate, and stores
  nothing (last conjunct).
\<close>

theorem C1_missing_fields:
  "(\<not> valid_input body \<longrightarrow> post_location now w body s = (Status400, s))
   \<and> on_send_location now w None s = s
   \<and> (falsy_string (userId body) \<longrightarrow> on_send_location now w (Some body) s = s)
   \<and> (\<not> falsy_string (userId body) \<and> (latitude body = None \<or> longitude body = None) \<longrightarrow>
        (\<exists>p. on_send_location now w (Some body) s =
               s\<lparr>trace := trace s @
                   [Emit AdminRoom ''adminLocationUpdate''
                      (p\<lparr>p_type := Some ''user_update''\<rparr>) (admin_ids s),
                    Emit Everyone ''locationUpdate'' p (all_ids s)]\<rparr>
             \<and> p_userId p = userId body \<and> p_latitude p = latitude body
             \<and> p_longitude p = longitude body))"
proof (intro conjI impI)
  assume "\<not> valid_input body"
  then show "post_location now w body s = (Status400, s)"
    by (rule post_location_rejected)
next
  show "on_send_location now w None s = s"
    by (simp add: on_send_location_def)
next
  assume "falsy_string (userId body)"
  then show "on_send_location now w (Some body) s = s"
    by (rule on_send_location_dropped)
next
  let ?p = "\<lparr>p_userId = userId body, p_latitude = latitude body,
             p_longitude = longitude body, p_accuracy = accuracy body,
             p_timestamp = now, p_type = None\<rparr>"
  assume "\<not> falsy_string (userId body) \<and> (latitude body = None \<or> longitude body = None)"
  then have "on_send_location now w (Some body) s =
      io_emit ''locationUpdate'' ?p
        (io_to_admin_emit ''adminLocationUpdate'' (?p\<lparr>p_type := Some ''user_update''\<rparr>) s)"
    by (simp add: on_send_location_forwarded)
  then show "\<exists>p. on_send_location now w (Some body) s =
               s\<lparr>trace := trace s @
                   [Emit AdminRoom ''adminLocationUpdate''
                      (p\<lparr>p_type := Some ''user_update''\<rparr>) (admin_ids s),
                    Emit Everyone ''locationUpdate'' p (all_ids s)]\<rparr>
             \<and> p_userId p = userId body \<and> p_latitude p = latitude body
             \<and> p_longitude p = longitude body"
    by (intro exI[of _ ?p])
       (simp add: io_emit_def io_to_admin_emit_def all_ids_def admin_ids_def)
qed

theorem C1_missing_fields_witness:
  "\<not> falsy_string (userId no_latitude) \<and> latitude no_latitude = None
   \<and> \<not> valid_input no_latitude
   \<and> post_location 1000 True no_latitude demo_server = (Status400, demo_server)
   \<and> (\<exists>p. on_send_location 1000 True (Some no_latitude) demo_server =
            demo_server\<lparr>trace := trace demo_server @
              [Emit AdminRoom ''adminLocationUpdate''
                 (p\<lparr>p_type := Some ''user_update''\<rparr>) (admin_ids demo_server),
               Emit Everyone ''locationUpdate'' p (all_ids demo_server)]\<rparr>
          \<and> p_userId p = Some ''u1'' \<and> p_latitude p = None \<and> p_longitude p = Some 2)"
  using C1_missing_fields[of no_latitude 1000 True demo_server]
  by (simp add: no_latitude_def valid_input_def falsy_string_def)

text \<open>
  C3. When persistence fails, a valid submission must still be distributed and
  answered with success and \<open>saved = False\<close>. With the store not connected the
  route does so: it emits both events with the clock reading as timestamp. With
  the store connected and the write rejected it does not: it answers
  \<^verbatim>\<open>500\<close> and emits nothing.
\<close>

theorem C3_persistence_failure:
  assumes "valid_input body"
  shows "(readyState s \<noteq> 1 \<longrightarrow>
            post_location now w body s = (Status200 False, emit_position body now s))
       \<and> (readyState s = 1 \<longrightarrow>
            post_location now False body s = (Status500 WriteError, s))"
  using assms by (simp add: post_location_offline post_location_write_error)

theorem C3_persistence_failure_witness:
  "valid_input demo_body \<and> readyState offline_server \<noteq> 1 \<and> readyState demo_server = 1
   \<and> post_location 1000 True demo_body offline_server =
       (Status200 False, emit_position demo_body 1000 offline_server)
   \<and> post_location 1000 False demo_body demo_server = (Status500 WriteError, demo_server)
   \<and> trace demo_server = []"
  using C3_persistence_failure[of demo_body offline_server 1000 True]
    C3_persistence_failure[of demo_body demo_server 1000]
  by (simp add: demo_body_def valid_input_def falsy_string_def offline_server_def
      demo_server_def)

text \<open>
  C10. A valid submission to the route that omits \<^verbatim>\<open>accuracy\<close>, with the store
  connected and the write accepted, stores a report with accuracy \<open>0\<close> and
  broadcasts events whose accuracy is absent.
\<close>

theorem C10_stored_and_broadcast_accuracy:
  assumes "valid_input body" and "accuracy body = None" and "readyState s = 1"
  shows "\<exists>l p. post_location now True body s =
           (Status200 True,
            s\<lparr>locations := locations s @ [l],
              trace := trace s @
                [Saved l,
                 Emit Everyone ''locationUpdate'' p (all_ids s),
                 Emit AdminRoom ''adminLocationUpdate''
                   (p\<lparr>p_type := Some ''user_update''\<rparr>) (admin_ids s)]\<rparr>)
         \<and> Some (loc_userId l) = userId body \<and> loc_accuracy l = 0
         \<and> p_userId p = userId body \<and> p_accuracy p = None"
proof -
  from assms(1) obtain l where l: "stored_doc now body = Some l"
    "Some (loc_userId l) = userId body" "loc_accuracy l = or_zero (accuracy body)"
    using stored_doc_valid by blast
  let ?p = "\<lparr>p_userId = userId body, p_latitude = latitude body,
             p_longitude = longitude body, p_accuracy = accuracy body,
             p_timestamp = now, p_type = None\<rparr>"
  have "post_location now True body s =
      (Status200 True, emit_position body now (with_doc l s))"
    using assms l by (simp add: post_location_saved)
  then show ?thesis
    using l assms(2)
    by (intro exI[of _ l] exI[of _ ?p])
       (simp add: emit_defs with_doc_def all_ids_def admin_ids_def or_zero_def)
qed

theorem C10_stored_and_broadcast_accuracy_witness:
  "valid_input demo_body \<and> accuracy demo_body = None \<and> readyState demo_server = 1
   \<and> (\<exists>l p. post_location 1000 True demo_body demo_server =
           (Status200 True,
            demo_server\<lparr>locations := locations demo_server @ [l],
              trace := trace demo_server @
                [Saved l,
                 Emit Everyone ''locationUpdate'' p (all_ids demo_server),
                 Emit AdminRoom ''adminLocationUpdate''
                   (p\<lparr>p_type := Some ''user_update''\<rparr>) (admin_ids demo_server)]\<rparr>)
         \<and> Some (loc_userId l) = Some ''u1'' \<and> loc_accuracy l = 0
         \<and> p_userId p = Some ''u1'' \<and> p_accuracy p = None)"
  using C10_stored_and_broadcast_accuracy[of demo_body demo_server 1000]
  by (simp add: demo_body_def valid_input_def falsy_string_def demo_server_def)

section \<open>The two ingress channels compared\<close>

text \<open>
  C2, as stated: the route and the push handler run the same
  persist-then-distribute sequence. They do not: on the same valid input, with the
  store connected and the write accepted, the route saves and then emits
  \<^verbatim>\<open>locationUpdate\<close> and \<^verbatim>\<open>adminLocationUpdate\<close>, while the push handler emits
  \<^verbatim>\<open>adminLocationUpdate\<close> and \<^verbatim>\<open>locationUpdate\<close> and saves last.
\<close>

theorem C2_same_sequence_counterexample:
  "trace (snd (post_location 1000 True demo_body demo_server)) =
     [Saved (report ''u1'' 1 2 1000),
      Emit Everyone ''locationUpdate''
        \<lparr>p_userId = Some ''u1'', p_latitude = Some 1, p_longitude = Some 2,
         p_accuracy = None, p_timestamp = 1000, p_type = None\<rparr> [1, 2],
      Emit AdminRoom ''adminLocationUpdate''
        \<lparr>p_userId = Some ''u1'', p_latitude = Some 1, p_longitude = Some 2,
         p_accuracy = None, p_timestamp = 1000, p_type = Some ''user_update''\<rparr> [1]]
   \<and> trace (on_send_location 1000 True (Some demo_body) demo_server) =
     [Emit AdminRoom ''adminLocationUpdate''
        \<lparr>p_userId = Some ''u1'', p_latitude = Some 1, p_longitude = Some 2,
         p_accuracy = None, p_timestamp = 1000, p_type = Some ''user_update''\<rparr> [1],
      Emit Everyone ''locationUpdate''
        \<lparr>p_userId = Some ''u1'', p_latitude = Some 1, p_longitude = Some 2,
         p_accuracy = None, p_timestamp = 1000, p_type = None\<rparr> [1, 2],
      Saved (report ''u1'' 1 2 1000)]
   \<and> snd (post_location 1000 True demo_body demo_server) \<noteq>
       on_send_location 1000 True (Some demo_body) demo_server"
proof -
  have a: "trace (snd (post_location 1000 True demo_body demo_server)) =
     [Saved (report ''u1'' 1 2 1000),
      Emit Everyone ''locationUpdate''
        \<lparr>p_userId = Some ''u1'', p_latitude = Some 1, p_longitude = Some 2,
         p_accuracy = None, p_timestamp = 1000, p_type = None\<rparr> [1, 2],
      Emit AdminRoom ''adminLocationUpdate''
        \<lparr>p_userId = Some ''u1'', p_latitude = Some 1, p_longitude = Some 2,
         p_accuracy = None, p_timestamp = 1000, p_type = Some ''user_update''\<rparr> [1]]"
    by (simp add: post_location_def save_defs emit_defs demo_body_def demo_server_def
        falsy_string_def or_zero_def all_ids_def admin_ids_def report_def)
  have b: "trace (on_send_location 1000 True (Some demo_body) demo_server) =
     [Emit AdminRoom ''adminLocationUpdate''
        \<lparr>p_userId = Some ''u1'', p_latitude = Some 1, p_longitude = Some 2,
         p_accuracy = None, p_timestamp = 1000, p_type = Some ''user_update''\<rparr> [1],
      Emit Everyone ''locationUpdate''
        \<lparr>p_userId = Some ''u1'', p_latitude = Some 1, p_longitude = Some 2,
         p_accuracy = None, p_timestamp = 1000, p_type = None\<rparr> [1, 2],
      Saved (report ''u1'' 1 2 1000)]"
    by (simp add: on_send_location_def Let_def save_def validate_def new_Location_def
        io_emit_def io_to_admin_emit_def demo_body_def demo_server_def
        falsy_string_def or_zero_def all_ids_def admin_ids_def report_def)
  have "trace (snd (post_location 1000 True demo_body demo_server)) \<noteq>
      trace (on_send_location 1000 True (Some demo_body) demo_server)"
    unfolding a b by simp
  then have "snd (post_location 1000 True demo_body demo_server) \<noteq>
      on_send_location 1000 True (Some demo_body) demo_server"
    by auto
  with a b show ?thesis by blast
qed

text \<open>
  C2, amended. The inputs are those of the four fields subject identifier,
  latitude, longitude and accuracy. An input without subject identifier has no
  effect on either channel. For an input with subject identifier and both
  coordinates: when the store is not connected, both channels emit the same two
  events (\<^verbatim>\<open>locationUpdate\<close> to every socket, \<^verbatim>\<open>adminLocationUpdate\<close> tagged
  \<^verbatim>\<open>user_update\<close> to the admin room) and store nothing; when the store is connected
  and the write is accepted, both emit these two events and store the same
  document. The order differs: the route saves, emits \<^verbatim>\<open>locationUpdate\<close>, then
  \<^verbatim>\<open>adminLocationUpdate\<close>, and answers; the push handler emits
  \<^verbatim>\<open>adminLocationUpdate\<close>, then \<^verbatim>\<open>locationUpdate\<close>, and saves last. Nothing is said
  here of a missing coordinate or of a rejected write.
\<close>

theorem C2_channels_same_effects_other_order:
  "(falsy_string (userId body) \<longrightarrow>
      post_location now w body s = (Status400, s)
    \<and> on_send_location now w (Some body) s = s)
   \<and> (valid_input body \<and> readyState s \<noteq> 1 \<longrightarrow>
        (\<exists>p. post_location now w body s =
                (Status200 False,
                 s\<lparr>trace := trace s @
                    [Emit Everyone ''locationUpdate'' p (all_ids s),
                     Emit AdminRoom ''adminLocationUpdate''
                       (p\<lparr>p_type := Some ''user_update''\<rparr>) (admin_ids s)]\<rparr>)
            \<and> on_send_location now w (Some body) s =
                s\<lparr>trace := trace s @
                    [Emit AdminRoom ''adminLocationUpdate''
                       (p\<lparr>p_type := Some ''user_update''\<rparr>) (admin_ids s),
                     Emit Everyone ''locationUpdate'' p (all_ids s)]\<rparr>))
   \<and> (valid_input body \<and> readyState s = 1 \<longrightarrow>
        (\<exists>l p. stored_doc now body = Some l
            \<and> post_location now True body s =
                (Status200 True,
                 s\<lparr>locations := locations s @ [l],
                   trace := trace s @
                    [Saved l,
                     Emit Everyone ''locationUpdate'' p (all_ids s),
                     Emit AdminRoom ''adminLocationUpdate''
                       (p\<lparr>p_type := Some ''user_update''\<rparr>) (admin_ids s)]\<rparr>)
            \<and> on_send_location now True (Some body) s =
                s\<lparr>locations := locations s @ [l],
                  trace := trace s @
                    [Emit AdminRoom ''adminLocationUpdate''
                       (p\<lparr>p_type := Some ''user_update''\<rparr>) (admin_ids s),
                     Emit Everyone ''locationUpdate'' p (all_ids s),
                     Saved l]\<rparr>))"
proof (intro conjI impI)
  assume f: "falsy_string (userId body)"
  then have "\<not> valid_input body"
    by (simp add: valid_input_def)
  then show "post_location now w body s = (Status400, s)"
    by (rule post_location_rejected)
  from f show "on_send_location now w (Some body) s = s"
    by (rule on_send_location_dropped)
next
  let ?p = "\<lparr>p_userId = userId body, p_latitude = latitude body,
             p_longitude = longitude body, p_accuracy = accuracy body,
             p_timestamp = now, p_type = None\<rparr>"
  assume a: "valid_input body \<and> readyState s \<noteq> 1"
  then have t: "\<not> falsy_string (userId body)"
    by (simp add: valid_input_def)
  have 1: "post_location now w body s = (Status200 False, emit_position body now s)"
    using a by (simp add: post_location_offline)
  have 2: "on_send_location now w (Some body) s =
      io_emit ''locationUpdate'' ?p
        (io_to_admin_emit ''adminLocationUpdate'' (?p\<lparr>p_type := Some ''user_update''\<rparr>) s)"
    using a t by (simp add: on_send_location_forwarded)
  show "\<exists>p. post_location now w body s =
                (Status200 False,
                 s\<lparr>trace := trace s @
                    [Emit Everyone ''locationUpdate'' p (all_ids s),
                     Emit AdminRoom ''adminLocationUpdate''
                       (p\<lparr>p_type := Some ''user_update''\<rparr>) (admin_ids s)]\<rparr>)
            \<and> on_send_location now w (Some body) s =
                s\<lparr>trace := trace s @
                    [Emit AdminRoom ''adminLocationUpdate''
                       (p\<lparr>p_type := Some ''user_update''\<rparr>) (admin_ids s),
                     Emit Everyone ''locationUpdate'' p (all_ids s)]\<rparr>"
    unfolding 1 2
    by (intro exI[of _ ?p]) (simp add: emit_defs all_ids_def admin_ids_def)
next
  let ?p = "\<lparr>p_userId = userId body, p_latitude = latitude body,
             p_longitude = longitude body, p_accuracy = accuracy body,
             p_timestamp = now, p_type = None\<rparr>"
  assume a: "valid_input body \<and> readyState s = 1"
  then obtain l where l: "stored_doc now body = Some l"
    using stored_doc_valid by blast
  have 1: "post_location now True body s =
      (Status200 True, emit_position body now (with_doc l s))"
    using a l by (simp add: post_location_saved)
  have 2: "on_send_location now True (Some body) s =
      with_doc l
        (io_emit ''locationUpdate'' ?p
           (io_to_admin_emit ''adminLocationUpdate'' (?p\<lparr>p_type := Some ''user_update''\<rparr>) s))"
    using a l by (simp add: on_send_location_saved)
  show "\<exists>l p. stored_doc now body = Some l
            \<and> post_location now True body s =
                (Status200 True,
                 s\<lparr>locations := locations s @ [l],
                   trace := trace s @
                    [Saved l,
                     Emit Everyone ''locationUpdate'' p (all_ids s),
                     Emit AdminRoom ''adminLocationUpdate''
                       (p\<lparr>p_type := Some ''user_update''\<rparr>) (admin_ids s)]\<rparr>)
            \<and> on_send_location now True (Some body) s =
                s\<lparr>locations := locations s @ [l],
                  trace := trace s @
                    [Emit AdminRoom ''adminLocationUpdate''
                       (p\<lparr>p_type := Some ''user_update''\<rparr>) (admin_ids s),
                     Emit Everyone ''locationUpdate'' p (all_ids s),
                     Saved l]\<rparr>"
    unfolding 1 2
    by (intro exI[of _ l] exI[of _ ?p])
       (simp add: l emit_defs with_doc_def all_ids_def admin_ids_def)
qed

theorem C2_channels_same_effects_other_order_witness:
  "valid_input demo_body \<and> readyState demo_server = 1 \<and> readyState offline_server \<noteq> 1
   \<and> falsy_string (userId (demo_body\<lparr>userId := None\<rparr>))
   \<and> post_location 1000 True (demo_body\<lparr>userId := None\<rparr>) demo_server =
       (Status400, demo_server)
   \<and> on_send_location 1000 True (Some (demo_body\<lparr>userId := None\<rparr>)) demo_server =
       demo_server
   \<and> (\<exists>p. post_location 1000 True demo_body offline_server =
             (Status200 False,
              offline_server\<lparr>trace := trace offline_server @
                 [Emit Everyone ''locationUpdate'' p (all_ids offline_server),
                  Emit AdminRoom ''adminLocationUpdate''
                    (p\<lparr>p_type := Some ''user_update''\<rparr>) (admin_ids offline_server)]\<rparr>)
          \<and> on_send_location 1000 True (Some demo_body) offline_server =
              offline_server\<lparr>trace := trace offline_server @
                 [Emit AdminRoom ''adminLocationUpdate''
                    (p\<lparr>p_type := Some ''user_update''\<rparr>) (admin_ids offline_server),
                  Emit Everyone ''locationUpdate'' p (all_ids offline_server)]\<rparr>)
   \<and> (\<exists>l p. stored_doc 1000 demo_body = Some l
          \<and> post_location 1000 True demo_body demo_server =
              (Status200 True,
               demo_server\<lparr>locations := locations demo_server @ [l],
                 trace := trace demo_server @
                  [Saved l,
                   Emit Everyone ''locationUpdate'' p (all_ids demo_server),
                   Emit AdminRoom ''adminLocationUpdate''
                     (p\<lparr>p_type := Some ''user_update''\<rparr>) (admin_ids demo_server)]\<rparr>)
          \<and> on_send_location 1000 True (Some demo_body) demo_server =
              demo_server\<lparr>locations := locations demo_server @ [l],
                trace := trace demo_server @
                  [Emit AdminRoom ''adminLocationUpdate''
                     (p\<lparr>p_type := Some ''user_update''\<rparr>) (admin_ids demo_server),
                   Emit Everyone ''locationUpdate'' p (all_ids demo_server),
                   Saved l]\<rparr>)"
proof -
  have v: "valid_input demo_body" "falsy_string (userId (demo_body\<lparr>userId := None\<rparr>))"
    by (simp_all add: demo_body_def valid_input_def falsy_string_def)
  have r: "readyState demo_server = 1" "readyState offline_server \<noteq> 1"
    by (simp_all add: demo_server_def offline_server_def)
  show ?thesis
    using C2_channels_same_effects_other_order[of "demo_body\<lparr>userId := None\<rparr>" 1000 True demo_server]
      C2_channels_same_effects_other_order[of demo_body 1000 True offline_server]
      C2_channels_same_effects_other_order[of demo_body 1000 True demo_server]
      v r
    by simp
qed

section \<open>Distribution\<close>

text \<open>
  C4. The emit section of the route sends the position payload to every
  connected socket and then the same payload, tagged \<^verbatim>\<open>user_update\<close>, to every
  socket of the admin room; a socket of the admin room therefore receives it
  twice, any other socket once. Every submission the route accepts runs the emit
  section.
\<close>

theorem C4_both_audiences:
  "let p = \<lparr>p_userId = userId body, p_latitude = latitude body, p_longitude = longitude body,
             p_accuracy = accuracy body, p_timestamp = ts, p_type = None\<rparr>;
       sent = [Emit Everyone ''locationUpdate'' p (all_ids s),
               Emit AdminRoom ''adminLocationUpdate'' (p\<lparr>p_type := Some ''user_update''\<rparr>)
                 (admin_ids s)]
   in trace (emit_position body ts s) = trace s @ sent
      \<and> (\<forall>c \<in> set (sockets s). distinct (all_ids s) \<longrightarrow>
            received (sock_id c) sent =
              (''locationUpdate'', p) #
              (if in_admin_room c
               then [(''adminLocationUpdate'', p\<lparr>p_type := Some ''user_update''\<rparr>)]
               else []))
      \<and> (\<forall>now write_ok saved s'.
            post_location now write_ok body s = (Status200 saved, s') \<longrightarrow>
            (\<exists>t s1. s' = emit_position body t s1 \<and> sockets s1 = sockets s))"
proof -
  have a: "c \<in> set (sockets s) \<Longrightarrow> sock_id c \<in> set (all_ids s)" for c
    by (simp add: all_ids_def)
  show ?thesis
    unfolding Let_def
  proof (intro conjI ballI impI allI)
    show "trace (emit_position body ts s) =
      trace s @
      [Emit Everyone ''locationUpdate''
         \<lparr>p_userId = userId body, p_latitude = latitude body, p_longitude = longitude body,
          p_accuracy = accuracy body, p_timestamp = ts, p_type = None\<rparr> (all_ids s),
       Emit AdminRoom ''adminLocationUpdate''
         (\<lparr>p_userId = userId body, p_latitude = latitude body, p_longitude = longitude body,
           p_accuracy = accuracy body, p_timestamp = ts, p_type = None\<rparr>
          \<lparr>p_type := Some ''user_update''\<rparr>) (admin_ids s)]"
      by (simp add: emit_defs all_ids_def admin_ids_def)
  next
    fix c
    assume "c \<in> set (sockets s)" "distinct (all_ids s)"
    then show "received (sock_id c)
       [Emit Everyone ''locationUpdate''
          \<lparr>p_userId = userId body, p_latitude = latitude body, p_longitude = longitude body,
           p_accuracy = accuracy body, p_timestamp = ts, p_type = None\<rparr> (all_ids s),
        Emit AdminRoom ''adminLocationUpdate''
          (\<lparr>p_userId = userId body, p_latitude = latitude body, p_longitude = longitude body,
            p_accuracy = accuracy body, p_timestamp = ts, p_type = None\<rparr>
           \<lparr>p_type := Some ''user_update''\<rparr>) (admin_ids s)] =
       (''locationUpdate'',
        \<lparr>p_userId = userId body, p_latitude = latitude body, p_longitude = longitude body,
         p_accuracy = accuracy body, p_timestamp = ts, p_type = None\<rparr>) #
       (if in_admin_room c
        then [(''adminLocationUpdate'',
               \<lparr>p_userId = userId body, p_latitude = latitude body,
                p_longitude = longitude body, p_accuracy = accuracy body,
                p_timestamp = ts, p_type = None\<rparr>\<lparr>p_type := Some ''user_update''\<rparr>)]
        else [])"
      by (simp add: a admin_ids_member)
  next
    fix now write_ok saved s'
    assume "post_location now write_ok body s = (Status200 saved, s')"
    then show "\<exists>t s1. s' = emit_position body t s1 \<and> sockets s1 = sockets s"
      by (rule post_location_accepted)
  qed
qed

theorem C4_both_audiences_witness:
  "distinct (all_ids demo_server)
   \<and> received 1 (trace (emit_position demo_body 1000 demo_server)) =
       [(''locationUpdate'',
         \<lparr>p_userId = Some ''u1'', p_latitude = Some 1, p_longitude = Some 2,
          p_accuracy = None, p_timestamp = 1000, p_type = None\<rparr>),
        (''adminLocationUpdate'',
         \<lparr>p_userId = Some ''u1'', p_latitude = Some 1, p_longitude = Some 2,
          p_accuracy = None, p_timestamp = 1000, p_type = Some ''user_update''\<rparr>)]
   \<and> received 2 (trace (emit_position demo_body 1000 demo_server)) =
       [(''locationUpdate'',
         \<lparr>p_userId = Some ''u1'', p_latitude = Some 1, p_longitude = Some 2,
          p_accuracy = None, p_timestamp = 1000, p_type = None\<rparr>)]
   \<and> post_location 1000 True demo_body offline_server =
       (Status200 False, emit_position demo_body 1000 offline_server)"
  using C4_both_audiences[of demo_body 1000 demo_server]
    C4_both_audiences[of demo_body 1000 offline_server]
  by (simp add: Let_def demo_server_def demo_body_def offline_server_def all_ids_def
      admin_ids_def post_location_def persist_attempt_def falsy_string_def)

section \<open>Presence\<close>

lemma presence_events_append [simp]:
  "presence_events (xs @ ys) = presence_events xs @ presence_events ys"
  by (induction xs rule: presence_events.induct) auto

lemma on_send_location_presence:
  "presence_events (trace (on_send_location now w loc s)) = presence_events (trace s)"
  by (auto simp: on_send_location_def Let_def io_emit_def io_to_admin_emit_def save_def
      split: option.splits sum.splits)

lemma map_last_socket:
  assumes "sid \<notin> sock_id ` set xs" "sock_id c = sid"
  shows "map (\<lambda>c. if sock_id c = sid then f c else c) (xs @ [c]) = xs @ [f c]"
  using assms by (induction xs) auto

lemma filter_last_socket:
  assumes "sid \<notin> sock_id ` set xs" "sock_id c = sid"
  shows "filter (\<lambda>c. sock_id c \<noteq> sid) (xs @ [c]) = xs"
  using assms by (induction xs) auto

lemma find_last_socket:
  assumes "sid \<notin> sock_id ` set xs" "sock_id c = sid"
  shows "find (\<lambda>c. sock_id c = sid) (xs @ [c]) = Some c"
  using assms by (induction xs) auto

lemma registrations_append:
  "registrations (xs @ ys) = registrations xs @ registrations ys"
  by (induction xs rule: registrations.induct) (auto split: option.splits)

lemma registrations_nonempty: "(t, u) \<in> set (registrations msgs) \<Longrightarrow> u \<noteq> []"
  by (induction msgs rule: registrations.induct) (auto split: option.splits if_splits)

lemma admin_ids_last:
  "sockets st = xs @ [c] \<Longrightarrow> sockets s = xs \<Longrightarrow>
   admin_ids st = admin_ids s @ (if in_admin_room c then [sock_id c] else [])"
  by (simp add: admin_ids_def)

lemma announced_snoc:
  "announced admins sid joined (ms @ [m]) =
     announced admins sid joined ms @
     announced admins sid (joined \<or> JoinAdminRoom \<in> set ms) [m]"
proof (induction admins sid joined ms rule: announced.induct)
  case (1 admins sid joined)
  show ?case by simp
next
  case (2 admins sid joined ms)
  then show ?case by simp
next
  case (3 admins sid joined now w loc ms)
  then show ?case by simp
next
  case (4 admins sid joined now data ms)
  then show ?case
    by (cases "registrations [RegisterUser now data]") auto
qed

text \<open>The expected events name the registered subjects, in order, as
  \<^verbatim>\<open>user_connected\<close> events for the admin room.\<close>

lemma announced_shape:
  "map (\<lambda>(a, p, r). (a, p)) (announced admins sid joined msgs) =
     map (\<lambda>(t, u).
            (AdminRoom,
             \<lparr>p_userId = Some u, p_latitude = None, p_longitude = None, p_accuracy = None,
              p_timestamp = t, p_type = Some ''user_connected''\<rparr>))
         (registrations msgs)"
proof (induction admins sid joined msgs rule: announced.induct)
  case (4 admins sid joined now data ms)
  then show ?case
    by (cases data) (auto split: option.splits)
qed simp_all

lemma announced_recipients:
  "(a, p, r) \<in> set (announced admins sid joined msgs) \<Longrightarrow>
   r = admins \<or> r = admins @ [sid]"
proof (induction admins sid joined msgs rule: announced.induct)
  case (4 admins sid joined now data ms)
  then show ?case
    by (cases "registrations [RegisterUser now data]") (auto split: if_splits)
qed simp_all

lemma announced_none:
  "registrations msgs = [] \<Longrightarrow> announced admins sid joined msgs = []"
proof (induction admins sid joined msgs rule: announced.induct)
  case (4 admins sid joined now data ms)
  then show ?case
    by (cases data) (auto split: option.splits if_splits)
qed simp_all

lemma announced_once:
  "registrations msgs = [(t, u)] \<Longrightarrow>
   announced admins sid joined msgs =
     [(AdminRoom,
       \<lparr>p_userId = Some u, p_latitude = None, p_longitude = None, p_accuracy = None,
        p_timestamp = t, p_type = Some ''user_connected''\<rparr>,
       admins @ (if joined \<or> joined_first msgs then [sid] else []))]"
proof (induction admins sid joined msgs rule: announced.induct)
  case (4 admins sid joined now data ms)
  show ?case
  proof (cases "registrations [RegisterUser now data]")
    case Nil
    then have "registrations ms = [(t, u)]"
      using "4.prems" registrations_append[of "[RegisterUser now data]" ms] by simp
    then show ?thesis
      using Nil "4.IH"(1) by simp
  next
    case (Cons r rs)
    then have r: "r = (t, u)" "rs = []" "registrations ms = []"
      using "4.prems" registrations_append[of "[RegisterUser now data]" ms] by auto
    then show ?thesis
      using Cons by (simp add: announced_none)
  qed
qed simp_all

text \<open>The state of the server while a connection is open: by induction on its
  messages.\<close>

lemma run_state_connection:
  "sid \<notin> set (all_ids s) \<Longrightarrow> run_state sid [] s (on_connection sid s)"
  by (simp add: run_state_def on_connection_def last_subject_def)

lemma run_state_step:
  assumes fresh: "sid \<notin> set (all_ids s)" and st: "run_state sid msgs s st"
  shows "run_state sid (msgs @ [m]) s (on_message sid m st)"
proof -
  from st obtain c where
    socks: "sockets st = sockets s @ [c]" and c: "sock_id c = sid"
    and sub: "sock_userId c = last_subject (registrations msgs)"
    and room: "in_admin_room c = (JoinAdminRoom \<in> set msgs)"
    and evs: "presence_events (trace st) =
                presence_events (trace s) @ announced (admin_ids s) sid False msgs"
    unfolding run_state_def by blast
  have fresh': "sid \<notin> sock_id ` set (sockets s)"
    using fresh by (simp add: all_ids_def)
  have here: "sid \<in> set (all_ids st)"
    using socks c by (simp add: all_ids_def)
  show ?thesis
  proof (cases m)
    case JoinAdminRoom
    have "sockets (on_join_admin_room sid st) = sockets s @ [c\<lparr>in_admin_room := True\<rparr>]"
      using socks map_last_socket[OF fresh' c] by (simp add: on_join_admin_room_def)
    then show ?thesis
      using JoinAdminRoom c sub evs
      unfolding run_state_def
      by (intro exI[of _ "c\<lparr>in_admin_room := True\<rparr>"])
         (simp add: registrations_append announced_snoc on_join_admin_room_def)
  next
    case (SendLocation now w loc)
    then show ?thesis
      using socks c sub room evs
      unfolding run_state_def
      by (intro exI[of _ c])
         (simp add: registrations_append announced_snoc on_send_location_sockets
            on_send_location_presence)
  next
    case (RegisterUser now data)
    show ?thesis
    proof (cases "registrations [m] = []")
      case True
      then have "on_register_user now sid data st = st"
        using RegisterUser here
        by (auto simp: on_register_user_def falsy_string_def toString_def
            split: option.splits if_splits)
      then show ?thesis
        using True RegisterUser socks c sub room evs
        unfolding run_state_def
        by (intro exI[of _ c]) (simp add: registrations_append announced_snoc)
    next
      case False
      then obtain d u where d: "data = Some d" "reg_userId d = Some u" "u \<noteq> []"
        and regs: "registrations [m] = [(now, u)]"
        using RegisterUser by (cases data) (auto split: option.splits if_splits)
      let ?st1 = "set_userId sid u st"
      let ?c = "c\<lparr>sock_userId := Some u\<rparr>"
      have socks1: "sockets ?st1 = sockets s @ [?c]"
        using socks map_last_socket[OF fresh' c] by (simp add: set_userId_def)
      have run: "on_register_user now sid data st =
          io_to_admin_emit ''adminLocationUpdate'' (presence (Some u) ''user_connected'' now) ?st1"
        using d here by (simp add: on_register_user_def falsy_string_def toString_def)
      have rcpt: "admin_ids ?st1 =
          admin_ids s @ (if JoinAdminRoom \<in> set msgs then [sid] else [])"
        using admin_ids_last[OF socks1 refl] room c by simp
      have tr1: "trace ?st1 = trace st"
        by (simp add: set_userId_def)
      have tr: "presence_events (trace (on_register_user now sid data st)) =
          presence_events (trace s) @ announced (admin_ids s) sid False (msgs @ [m])"
        using evs regs RegisterUser
        by (simp add: run io_to_admin_emit_def tr1 presence_def rcpt announced_snoc)
      show ?thesis
        unfolding run_state_def
        using RegisterUser c tr regs room
        by (intro exI[of _ ?c])
           (simp add: registrations_append run io_to_admin_emit_def socks1 last_subject_def)
    qed
  qed
qed

lemma run_state_connected_run:
  assumes "sid \<notin> set (all_ids s)"
  shows "run_state sid msgs s (connected_run sid msgs s)"
proof (induction msgs rule: rev_induct)
  case Nil
  show ?case
    using assms by (simp add: connected_run_def run_state_connection)
next
  case (snoc m msgs)
  have "connected_run sid (msgs @ [m]) s = on_message sid m (connected_run sid msgs s)"
    by (simp add: connected_run_def)
  then show ?case
    using run_state_step[OF assms snoc] by simp
qed

lemma last_subject_truthy:
  assumes "last_subject (registrations msgs) = Some u"
  shows "u \<noteq> []"
proof -
  from assms have "registrations msgs \<noteq> []" and "u = snd (last (registrations msgs))"
    by (auto simp: last_subject_def split: if_splits)
  then have "(fst (last (registrations msgs)), u) \<in> set (registrations msgs)"
    by simp
  then show ?thesis
    by (rule registrations_nonempty)
qed

text \<open>The presence events of a whole connection.\<close>

lemma session_presence:
  assumes fresh: "sid \<notin> set (all_ids s)"
  shows "presence_events (trace (session sid msgs t s)) =
           presence_events (trace s) @ announced (admin_ids s) sid False msgs @
             (case last_subject (registrations msgs) of
                None \<Rightarrow> []
              | Some u \<Rightarrow>
                  [(AdminRoom,
                    \<lparr>p_userId = Some u, p_latitude = None, p_longitude = None,
                     p_accuracy = None, p_timestamp = t,
                     p_type = Some ''user_disconnected''\<rparr>,
                    admin_ids s)])"
proof -
  let ?st = "connected_run sid msgs s"
  from run_state_connected_run[OF fresh, of msgs] obtain c where
    socks: "sockets ?st = sockets s @ [c]" and c: "sock_id c = sid"
    and sub: "sock_userId c = last_subject (registrations msgs)"
    and evs: "presence_events (trace ?st) =
                presence_events (trace s) @ announced (admin_ids s) sid False msgs"
    unfolding run_state_def by blast
  have fresh': "sid \<notin> sock_id ` set (sockets s)"
    using fresh by (simp add: all_ids_def)
  have f: "find (\<lambda>c. sock_id c = sid) (sockets ?st) = Some c"
    using socks find_last_socket[OF fresh' c] by simp
  have g: "filter (\<lambda>c. sock_id c \<noteq> sid) (sockets ?st) = sockets s"
    using socks filter_last_socket[OF fresh' c] by simp
  show ?thesis
  proof (cases "last_subject (registrations msgs)")
    case None
    then have "session sid msgs t s = ?st\<lparr>sockets := sockets s\<rparr>"
      using f g sub by (simp add: session_def on_disconnect_def falsy_string_def)
    then show ?thesis
      using None evs by simp
  next
    case (Some u)
    then have "u \<noteq> []"
      by (rule last_subject_truthy)
    then have "session sid msgs t s =
        io_to_admin_emit ''adminLocationUpdate'' (presence (Some u) ''user_disconnected'' t)
          (?st\<lparr>sockets := sockets s\<rparr>)"
      using f g sub Some by (simp add: session_def on_disconnect_def falsy_string_def)
    then show ?thesis
      using Some evs
      by (simp add: io_to_admin_emit_def presence_def admin_ids_def)
  qed
qed

text \<open>
  C5. A connection that registers the subject \<open>S\<close> once and then disconnects,
  whatever positions it pushes and whether or not it joins the admin room, causes
  exactly two presence events, in this order: \<^verbatim>\<open>user_connected\<close> naming \<open>S\<close> with the
  clock reading of the registration, and \<^verbatim>\<open>user_disconnected\<close> naming \<open>S\<close> with the
  clock reading of the disconnect. Both are addressed to the admin room. The first
  reaches the admin-room sockets of the server, and the connection itself exactly
  when it joined the room before registering; the second reaches the admin-room
  sockets of the server. A connection that never registers a subject causes no
  presence event.
\<close>

theorem C5_register_then_disconnect:
  assumes fresh: "sid \<notin> set (all_ids s)"
  shows "(registrations msgs = [(t1, S)] \<longrightarrow>
           presence_events (trace (session sid msgs t2 s)) =
             presence_events (trace s) @
               [(AdminRoom,
                 \<lparr>p_userId = Some S, p_latitude = None, p_longitude = None,
                  p_accuracy = None, p_timestamp = t1, p_type = Some ''user_connected''\<rparr>,
                 admin_ids s @ (if joined_first msgs then [sid] else [])),
                (AdminRoom,
                 \<lparr>p_userId = Some S, p_latitude = None, p_longitude = None,
                  p_accuracy = None, p_timestamp = t2,
                  p_type = Some ''user_disconnected''\<rparr>,
                 admin_ids s)])
       \<and> (registrations msgs = [] \<longrightarrow>
            presence_events (trace (session sid msgs t2 s)) = presence_events (trace s))"
proof (intro conjI impI)
  assume one: "registrations msgs = [(t1, S)]"
  then have "last_subject (registrations msgs) = Some S"
    by (simp add: last_subject_def)
  then show "presence_events (trace (session sid msgs t2 s)) =
             presence_events (trace s) @
               [(AdminRoom,
                 \<lparr>p_userId = Some S, p_latitude = None, p_longitude = None,
                  p_accuracy = None, p_timestamp = t1, p_type = Some ''user_connected''\<rparr>,
                 admin_ids s @ (if joined_first msgs then [sid] else [])),
                (AdminRoom,
                 \<lparr>p_userId = Some S, p_latitude = None, p_longitude = None,
                  p_accuracy = None, p_timestamp = t2,
                  p_type = Some ''user_disconnected''\<rparr>,
                 admin_ids s)]"
    using session_presence[OF fresh, of msgs t2] announced_once[OF one, of "admin_ids s" sid False]
    by simp
next
  assume none: "registrations msgs = []"
  then have "last_subject (registrations msgs) = None"
    by (simp add: last_subject_def)
  then show "presence_events (trace (session sid msgs t2 s)) = presence_events (trace s)"
    using session_presence[OF fresh, of msgs t2] announced_none[OF none, of "admin_ids s" sid False]
    by simp
qed

theorem C5_register_then_disconnect_witness:
  "3 \<notin> set (all_ids demo_server) \<and> admin_ids demo_server = [1]
   \<and> registrations register_then_join = [(5, ''S'')]
   \<and> presence_events (trace (session 3 register_then_join 9 demo_server)) =
       [(AdminRoom,
         \<lparr>p_userId = Some ''S'', p_latitude = None, p_longitude = None,
          p_accuracy = None, p_timestamp = 5, p_type = Some ''user_connected''\<rparr>, [1]),
        (AdminRoom,
         \<lparr>p_userId = Some ''S'', p_latitude = None, p_longitude = None,
          p_accuracy = None, p_timestamp = 9, p_type = Some ''user_disconnected''\<rparr>, [1])]
   \<and> registrations join_then_register = [(5, ''S'')]
   \<and> presence_events (trace (session 3 join_then_register 9 demo_server)) =
       [(AdminRoom,
         \<lparr>p_userId = Some ''S'', p_latitude = None, p_longitude = None,
          p_accuracy = None, p_timestamp = 5, p_type = Some ''user_connected''\<rparr>, [1, 3]),
        (AdminRoom,
         \<lparr>p_userId = Some ''S'', p_latitude = None, p_longitude = None,
          p_accuracy = None, p_timestamp = 9, p_type = Some ''user_disconnected''\<rparr>, [1])]
   \<and> registrations [JoinAdminRoom, RegisterUser 5 None] = []
   \<and> presence_events
       (trace (session 3 [JoinAdminRoom, RegisterUser 5 None] 9 demo_server)) = []"
proof -
  have f: "3 \<notin> set (all_ids demo_server)"
    by (simp add: demo_server_def all_ids_def)
  have a: "admin_ids demo_server = [1]" "presence_events (trace demo_server) = []"
    by (simp_all add: demo_server_def admin_ids_def)
  have r: "registrations register_then_join = [(5, ''S'')]"
    "registrations join_then_register = [(5, ''S'')]"
    "registrations [JoinAdminRoom, RegisterUser 5 None] = []"
    by (simp_all add: register_then_join_def join_then_register_def)
  have j: "\<not> joined_first register_then_join" "joined_first join_then_register"
    by (simp_all add: register_then_join_def join_then_register_def)
  show ?thesis
    using C5_register_then_disconnect[OF f, of register_then_join 5 "''S''" 9]
      C5_register_then_disconnect[OF f, of join_then_register 5 "''S''" 9]
      C5_register_then_disconnect[OF f, of "[JoinAdminRoom, RegisterUser 5 None]" 5 "''S''" 9]
    by (simp add: f a r j)
qed

text \<open>
  C9. Every \<^verbatim>\<open>register-user\<close> message that carries a subject identifier emits one
  \<^verbatim>\<open>user_connected\<close> event naming that subject to the admin room, also when the
  connection is already bound: the presence events of a connection are one
  \<^verbatim>\<open>user_connected\<close> for each such message, in order, each received by the
  admin-room sockets of the server (and by the connection itself once it has joined
  the room), followed, when there was a registration, by exactly one
  \<^verbatim>\<open>user_disconnected\<close> event that names the subject registered last and is received
  by the admin-room sockets of the server.
\<close>

theorem C9_rebinding_is_announced:
  assumes fresh: "sid \<notin> set (all_ids s)"
  shows "\<exists>evs. presence_events (trace (session sid msgs t s)) =
           presence_events (trace s) @ evs @
             (if registrations msgs = [] then []
              else [(AdminRoom,
                     \<lparr>p_userId = Some (snd (last (registrations msgs))),
                      p_latitude = None, p_longitude = None, p_accuracy = None,
                      p_timestamp = t, p_type = Some ''user_disconnected''\<rparr>,
                     admin_ids s)])
         \<and> evs = announced (admin_ids s) sid False msgs
         \<and> map (\<lambda>(a, p, r). (a, p)) evs =
             map (\<lambda>(t', u).
                    (AdminRoom,
                     \<lparr>p_userId = Some u, p_latitude = None, p_longitude = None,
                      p_accuracy = None, p_timestamp = t',
                      p_type = Some ''user_connected''\<rparr>))
                 (registrations msgs)
         \<and> (\<forall>(a, p, r) \<in> set evs. r = admin_ids s \<or> r = admin_ids s @ [sid])"
proof (intro exI[of _ "announced (admin_ids s) sid False msgs"] conjI)
  show "presence_events (trace (session sid msgs t s)) =
      presence_events (trace s) @ announced (admin_ids s) sid False msgs @
        (if registrations msgs = [] then []
         else [(AdminRoom,
                \<lparr>p_userId = Some (snd (last (registrations msgs))),
                 p_latitude = None, p_longitude = None, p_accuracy = None,
                 p_timestamp = t, p_type = Some ''user_disconnected''\<rparr>,
                admin_ids s)])"
    using session_presence[OF fresh, of msgs t] by (simp add: last_subject_def)
  show "announced (admin_ids s) sid False msgs = announced (admin_ids s) sid False msgs"
    by (rule refl)
  show "map (\<lambda>(a, p, r). (a, p)) (announced (admin_ids s) sid False msgs) =
      map (\<lambda>(t', u).
             (AdminRoom,
              \<lparr>p_userId = Some u, p_latitude = None, p_longitude = None,
               p_accuracy = None, p_timestamp = t', p_type = Some ''user_connected''\<rparr>))
          (registrations msgs)"
    by (rule announced_shape)
  show "\<forall>(a, p, r) \<in> set (announced (admin_ids s) sid False msgs).
          r = admin_ids s \<or> r = admin_ids s @ [sid]"
    using announced_recipients by fastforce
qed

theorem C9_rebinding_is_announced_witness:
  "3 \<notin> set (all_ids demo_server)
   \<and> registrations demo_msgs = [(5, ''S1''), (8, ''S2'')]
   \<and> presence_events (trace (session 3 demo_msgs 9 demo_server)) =
       [(AdminRoom,
         \<lparr>p_userId = Some ''S1'', p_latitude = None, p_longitude = None,
          p_accuracy = None, p_timestamp = 5, p_type = Some ''user_connected''\<rparr>, [1]),
        (AdminRoom,
         \<lparr>p_userId = Some ''S2'', p_latitude = None, p_longitude = None,
          p_accuracy = None, p_timestamp = 8, p_type = Some ''user_connected''\<rparr>, [1, 3]),
        (AdminRoom,
         \<lparr>p_userId = Some ''S2'', p_latitude = None, p_longitude = None,
          p_accuracy = None, p_timestamp = 9, p_type = Some ''user_disconnected''\<rparr>, [1])]"
proof -
  have r: "registrations demo_msgs = [(5, ''S1''), (8, ''S2'')]"
    by (simp add: demo_msgs_def)
  have f: "3 \<notin> set (all_ids demo_server)"
    by (simp add: demo_server_def all_ids_def)
  have a: "admin_ids demo_server = [1]" "presence_events (trace demo_server) = []"
    by (simp_all add: demo_server_def admin_ids_def)
  have e: "announced (admin_ids demo_server) 3 False demo_msgs =
       [(AdminRoom,
         \<lparr>p_userId = Some ''S1'', p_latitude = None, p_longitude = None,
          p_accuracy = None, p_timestamp = 5, p_type = Some ''user_connected''\<rparr>, [1]),
        (AdminRoom,
         \<lparr>p_userId = Some ''S2'', p_latitude = None, p_longitude = None,
          p_accuracy = None, p_timestamp = 8, p_type = Some ''user_connected''\<rparr>, [1, 3])]"
    by (simp add: demo_msgs_def a)
  from C9_rebinding_is_announced[OF f, of demo_msgs 9] obtain evs where
    "presence_events (trace (session 3 demo_msgs 9 demo_server)) =
       presence_events (trace demo_server) @ evs @
         (if registrations demo_msgs = [] then []
          else [(AdminRoom,
                 \<lparr>p_userId = Some (snd (last (registrations demo_msgs))),
                  p_latitude = None, p_longitude = None, p_accuracy = None,
                  p_timestamp = 9, p_type = Some ''user_disconnected''\<rparr>,
                 admin_ids demo_server)])"
    and "evs = announced (admin_ids demo_server) 3 False demo_msgs"
    by blast
  then have "presence_events (trace (session 3 demo_msgs 9 demo_server)) =
       presence_events (trace demo_server) @
       announced (admin_ids demo_server) 3 False demo_msgs @
       [(AdminRoom,
         \<lparr>p_userId = Some ''S2'', p_latitude = None, p_longitude = None,
          p_accuracy = None, p_timestamp = 9, p_type = Some ''user_disconnected''\<rparr>,
         admin_ids demo_server)]"
    by (simp add: r)
  then show ?thesis
    unfolding e using f r a by simp
qed

section \<open>Sorting newest first\<close>

lemma sorted_sort_desc: "sorted_wrt (\<ge>) (map f (sort_desc f xs))"
proof -
  have "sorted (map f (sort_key f xs))"
    by (rule sorted_sort_key)
  then have "sorted_wrt (\<lambda>x y. y \<le> x) (rev (map f (sort_key f xs)))"
    by (simp add: sorted_wrt_rev)
  then show ?thesis
    by (simp add: sort_desc_def rev_map)
qed

lemma mset_sort_desc [simp]: "mset (sort_desc f xs) = mset xs"
  by (simp add: sort_desc_def)

lemma set_sort_desc [simp]: "set (sort_desc f xs) = set xs"
  by (simp add: sort_desc_def)

lemma length_sort_desc [simp]: "length (sort_desc f xs) = length xs"
  by (simp add: sort_desc_def)

lemma filter_sort_desc: "filter P (sort_desc f xs) = sort_desc f (filter P xs)"
  by (simp add: sort_desc_def filter_sort flip: rev_filter)

text \<open>In a list sorted newest first, nothing after the first \<open>n\<close> elements is newer
  than one of them.\<close>

lemma take_most_recent:
  assumes "sorted_wrt (\<ge>) (map f ys)"
  shows "\<forall>x \<in> set (take n ys). \<forall>y \<in> set (drop n ys). f y \<le> f x"
proof -
  have "sorted_wrt (\<ge>) (map f (take n ys @ drop n ys))"
    using assms by simp
  then show ?thesis
    unfolding map_append sorted_wrt_append by auto
qed

section \<open>The aggregation query\<close>

text \<open>\<^verbatim>\<open>$group\<close> keeps one accumulator per key, in the state \<open>group_of\<close> describes.\<close>

lemma accumulate_ids:
  "map g_id (accumulate l gs) =
     (if loc_userId l \<in> g_id ` set gs then map g_id gs else map g_id gs @ [loc_userId l])"
  by (induction gs) auto

lemma group_of_other:
  "g_id g \<noteq> loc_userId l \<Longrightarrow> group_of (xs @ [l]) g = group_of xs g"
  by (simp add: group_of_def find_by_userId_def)

lemma group_of_update:
  assumes "group_of xs g" and "g_id g = loc_userId l"
  shows "group_of (xs @ [l])
           (g\<lparr>g_locationCount := g_locationCount g + 1,
              g_firstSeen := min (g_firstSeen g) (loc_timestamp l),
              g_lastSeen := max (g_lastSeen g) (loc_timestamp l)\<rparr>)"
proof -
  let ?ms = "find_by_userId (g_id g) xs"
  from assms(1) have ne: "?ms \<noteq> []" and
    g: "g_lastLocation g = hd ?ms" "g_locationCount g = length ?ms"
       "g_firstSeen g = Min (loc_timestamp ` set ?ms)"
       "g_lastSeen g = Max (loc_timestamp ` set ?ms)"
    by (simp_all add: group_of_def Let_def)
  have app: "find_by_userId (g_id g) (xs @ [l]) = ?ms @ [l]"
    using assms(2) by (simp add: find_by_userId_def)
  have fin: "finite (loc_timestamp ` set ?ms)" "loc_timestamp ` set ?ms \<noteq> {}"
    using ne by simp_all
  show ?thesis
    unfolding group_of_def Let_def
    using ne g app Min_insert[OF fin] Max_insert[OF fin]
    by (simp add: min.commute max.commute)
qed

lemma group_of_new:
  assumes "loc_userId l \<notin> loc_userId ` set xs"
  shows "group_of (xs @ [l])
           \<lparr>g_id = loc_userId l, g_lastLocation = l, g_locationCount = 1,
            g_firstSeen = loc_timestamp l, g_lastSeen = loc_timestamp l\<rparr>"
proof -
  have "filter (\<lambda>x. loc_userId x = loc_userId l) xs = []"
    using assms by (induction xs) auto
  then show ?thesis
    by (simp add: group_of_def find_by_userId_def)
qed

lemma accumulate_group_of:
  assumes "\<forall>g \<in> set gs. group_of xs g" and "distinct (map g_id gs)"
    and "loc_userId l \<in> g_id ` set gs \<or> loc_userId l \<notin> loc_userId ` set xs"
  shows "\<forall>g \<in> set (accumulate l gs). group_of (xs @ [l]) g"
  using assms
proof (induction gs)
  case Nil
  then show ?case using group_of_new[of l xs] by simp
next
  case (Cons g gs)
  show ?case
  proof (cases "g_id g = loc_userId l")
    case True
    have "loc_userId l \<notin> g_id ` set gs"
      using Cons.prems(2) True by simp
    then have "\<forall>h \<in> set gs. g_id h \<noteq> loc_userId l"
      by (metis imageI)
    then have "\<forall>h \<in> set gs. group_of (xs @ [l]) h"
      using Cons.prems(1) by (simp add: group_of_other)
    then show ?thesis
      using True Cons.prems(1) group_of_update[of xs g l] by simp
  next
    case False
    then have "\<forall>h \<in> set (accumulate l gs). group_of (xs @ [l]) h"
      using Cons by auto
    then show ?thesis
      using False Cons.prems(1) by (simp add: group_of_other)
  qed
qed

lemma group_stage_snoc: "group_stage (xs @ [l]) = accumulate l (group_stage xs)"
  by (simp add: group_stage_def)

lemma group_stage_correct:
  "distinct (map g_id (group_stage xs))
   \<and> g_id ` set (group_stage xs) = loc_userId ` set xs
   \<and> (\<forall>g \<in> set (group_stage xs). group_of xs g)"
proof (induction xs rule: rev_induct)
  case Nil
  show ?case by (simp add: group_stage_def)
next
  case (snoc l xs)
  let ?gs = "group_stage xs"
  have ids: "map g_id (accumulate l ?gs) =
     (if loc_userId l \<in> g_id ` set ?gs then map g_id ?gs else map g_id ?gs @ [loc_userId l])"
    by (rule accumulate_ids)
  have d: "distinct (map g_id (accumulate l ?gs))"
    using snoc unfolding ids by auto
  have "set (map g_id (accumulate l ?gs)) = loc_userId ` set (xs @ [l])"
    using snoc unfolding ids by auto
  then have s: "g_id ` set (accumulate l ?gs) = loc_userId ` set (xs @ [l])"
    by simp
  have "loc_userId l \<in> g_id ` set ?gs \<or> loc_userId l \<notin> loc_userId ` set xs"
    using snoc by auto
  then have g: "\<forall>g \<in> set (accumulate l ?gs). group_of (xs @ [l]) g"
    using snoc by (intro accumulate_group_of) auto
  show ?case
    unfolding group_stage_snoc using d s g by blast
qed

lemma hd_newest:
  assumes "sorted_wrt (\<ge>) (map f ms)" and "ms \<noteq> []"
  shows "f (hd ms) = Max (f ` set ms)"
proof -
  from assms(2) obtain x rest where ms: "ms = x # rest"
    by (cases ms) auto
  with assms(1) have "\<forall>y \<in> set rest. f y \<le> f x"
    by auto
  then have "Max (f ` set ms) = f x"
    unfolding ms by (intro Max_eqI) auto
  then show ?thesis by (simp add: ms)
qed

lemma find_by_userId_sort_desc:
  "find_by_userId u (sort_desc f xs) = sort_desc f (find_by_userId u xs)"
  by (simp add: find_by_userId_def filter_sort_desc)

lemma distinct_pair:
  assumes "distinct ys" and "set ys = {a, b}" and "a \<noteq> b"
  shows "ys = [a, b] \<or> ys = [b, a]"
proof -
  have "length ys = 2"
    using assms distinct_card[of ys] by simp
  then obtain x y where "ys = [x, y]"
    by (auto simp: length_Suc_conv numeral_2_eq_2)
  with assms show ?thesis
    by (auto simp: doubleton_eq_iff)
qed

text \<open>
  C6. With the store connected and the read accepted, \<^verbatim>\<open>GET /api/admin/users\<close>
  answers exactly one entry for each subject identifier of the collection. The
  entry holds the number of the subject's reports, the least and the greatest of
  their timestamps as first-seen and last-seen, and the position of one of its
  reports with the greatest timestamp; the entries are ordered by last-seen,
  newest first. In particular, when the collection holds reports of two subjects
  \<open>A\<close> and \<open>B\<close> only and the newest report of \<open>A\<close> is newer than that of \<open>B\<close>, the
  answer is the entry of \<open>A\<close> followed by the entry of \<open>B\<close>.
\<close>

theorem C6_latest_per_subject:
  assumes up: "readyState s = 1"
  shows "let out = get_admin_users True s; xs = locations s
         in distinct (map uv_userId out)
          \<and> uv_userId ` set out = loc_userId ` set xs
          \<and> (\<forall>v \<in> set out.
               let grp = find_by_userId (uv_userId v) xs
               in uv_locationCount v = length grp
                \<and> uv_firstSeen v = Min (loc_timestamp ` set grp)
                \<and> uv_lastSeen v = Max (loc_timestamp ` set grp)
                \<and> (\<exists>l \<in> set grp. loc_timestamp l = Max (loc_timestamp ` set grp)
                      \<and> uv_latitude v = loc_latitude l
                      \<and> uv_longitude v = loc_longitude l
                      \<and> uv_accuracy v = loc_accuracy l))
          \<and> sorted_wrt (\<ge>) (map uv_lastSeen out)
          \<and> (\<forall>A B. loc_userId ` set xs = {A, B} \<and> last_seen B xs < last_seen A xs \<longrightarrow>
                map uv_userId out = [A, B])"
proof -
  define xs where "xs = locations s"
  define ys where "ys = sort_desc loc_timestamp xs"
  define gs where "gs = group_stage ys"
  define out where "out = sort_desc uv_lastSeen (map project gs)"
  have out: "get_admin_users True s = out"
    using up
    by (simp add: get_admin_users_def run_query_def aggregate_def out_def gs_def ys_def
        xs_def)
  from group_stage_correct[of ys] have
    d: "distinct (map g_id gs)" and ids: "g_id ` set gs = loc_userId ` set xs"
    and ok: "\<forall>g \<in> set gs. group_of ys g"
    by (simp_all add: gs_def ys_def)
  have id: "uv_userId \<circ> project = g_id"
    by (auto simp: project_def)
  have "mset (map uv_userId out) = mset (map g_id gs)"
    by (simp add: out_def multiset.map_comp id)
  then have 1: "distinct (map uv_userId out)"
    using d by (metis mset_eq_imp_distinct_iff)
  have 2: "uv_userId ` set out = loc_userId ` set xs"
    using ids by (simp add: out_def image_image project_def)
  have 3: "\<forall>v \<in> set out.
               let grp = find_by_userId (uv_userId v) xs
               in uv_locationCount v = length grp
                \<and> uv_firstSeen v = Min (loc_timestamp ` set grp)
                \<and> uv_lastSeen v = Max (loc_timestamp ` set grp)
                \<and> (\<exists>l \<in> set grp. loc_timestamp l = Max (loc_timestamp ` set grp)
                      \<and> uv_latitude v = loc_latitude l
                      \<and> uv_longitude v = loc_longitude l
                      \<and> uv_accuracy v = loc_accuracy l)"
  proof
    fix v assume "v \<in> set out"
    then obtain g where g: "g \<in> set gs" and v: "v = project g"
      by (auto simp: out_def)
    let ?grp = "find_by_userId (g_id g) xs"
    let ?ms = "find_by_userId (g_id g) ys"
    have ms: "?ms = sort_desc loc_timestamp ?grp"
      by (simp add: ys_def find_by_userId_sort_desc)
    from ok g have ne: "?ms \<noteq> []" and
      f: "g_lastLocation g = hd ?ms" "g_locationCount g = length ?ms"
         "g_firstSeen g = Min (loc_timestamp ` set ?ms)"
         "g_lastSeen g = Max (loc_timestamp ` set ?ms)"
      by (simp_all add: group_of_def Let_def)
    have set_eq: "set ?ms = set ?grp" and len: "length ?ms = length ?grp"
      by (simp_all add: ms)
    have "sorted_wrt (\<ge>) (map loc_timestamp ?ms)"
      unfolding ms by (rule sorted_sort_desc)
    then have newest: "loc_timestamp (hd ?ms) = Max (loc_timestamp ` set ?ms)"
      using ne by (rule hd_newest)
    have mem: "hd ?ms \<in> set ?grp"
      using ne set_eq hd_in_set by blast
    show "let grp = find_by_userId (uv_userId v) xs
               in uv_locationCount v = length grp
                \<and> uv_firstSeen v = Min (loc_timestamp ` set grp)
                \<and> uv_lastSeen v = Max (loc_timestamp ` set grp)
                \<and> (\<exists>l \<in> set grp. loc_timestamp l = Max (loc_timestamp ` set grp)
                      \<and> uv_latitude v = loc_latitude l
                      \<and> uv_longitude v = loc_longitude l
                      \<and> uv_accuracy v = loc_accuracy l)"
      unfolding Let_def v
      using f len set_eq newest mem
      by (auto simp: project_def intro!: bexI[of _ "hd ?ms"])
  qed
  have 4: "sorted_wrt (\<ge>) (map uv_lastSeen out)"
    unfolding out_def by (rule sorted_sort_desc)
  have seen: "uv_lastSeen v = last_seen (uv_userId v) xs" if "v \<in> set out" for v
    using 3 that by (simp add: Let_def last_seen_def)
  have 5: "map uv_userId out = [A, B]"
    if two: "loc_userId ` set xs = {A, B}" and newer: "last_seen B xs < last_seen A xs"
    for A B
  proof -
    have ne: "A \<noteq> B"
      using newer by auto
    have st: "set (map uv_userId out) = {A, B}"
      using 2 two by simp
    from 1 st ne have "map uv_userId out = [A, B] \<or> map uv_userId out = [B, A]"
      by (rule distinct_pair)
    moreover have False if "map uv_userId out = [B, A]"
    proof -
      from that obtain v w where vw: "out = [v, w]" "uv_userId v = B" "uv_userId w = A"
        by auto
      then have "uv_lastSeen w \<le> uv_lastSeen v"
        using 4 by simp
      moreover have "uv_lastSeen v = last_seen B xs" "uv_lastSeen w = last_seen A xs"
        using seen[of v] seen[of w] vw by simp_all
      ultimately show False
        using newer by simp
    qed
    ultimately show ?thesis by argo
  qed
  show ?thesis
    unfolding Let_def out xs_def[symmetric] using 1 2 3 4 5 by (simp add: Let_def)
qed

theorem C6_latest_per_subject_witness:
  "readyState demo_store = 1
   \<and> loc_userId ` set (locations demo_store) = {''A'', ''B''}
   \<and> length (find_by_userId ''A'' (locations demo_store)) = 3
   \<and> length (find_by_userId ''B'' (locations demo_store)) = 1
   \<and> last_seen ''A'' (locations demo_store) = 300
   \<and> last_seen ''B'' (locations demo_store) = 100
   \<and> map uv_userId (get_admin_users True demo_store) = [''A'', ''B'']
   \<and> get_admin_users True demo_store =
       [\<lparr>uv_userId = ''A'', uv_latitude = 11, uv_longitude = 21, uv_accuracy = 0,
         uv_lastSeen = 300, uv_firstSeen = 100, uv_locationCount = 3\<rparr>,
        \<lparr>uv_userId = ''B'', uv_latitude = 50, uv_longitude = 60, uv_accuracy = 0,
         uv_lastSeen = 100, uv_firstSeen = 100, uv_locationCount = 1\<rparr>]"
proof -
  have r: "readyState demo_store = 1"
    by (simp add: demo_store_def demo_server_def)
  have ids: "loc_userId ` set (locations demo_store) = {''A'', ''B''}"
    by (auto simp: demo_store_def report_def)
  have n: "length (find_by_userId ''A'' (locations demo_store)) = 3"
    "length (find_by_userId ''B'' (locations demo_store)) = 1"
    by (simp_all add: demo_store_def find_by_userId_def report_def)
  have t: "last_seen ''A'' (locations demo_store) = 300"
    "last_seen ''B'' (locations demo_store) = 100"
    by (simp_all add: last_seen_def demo_store_def find_by_userId_def report_def)
  have v: "get_admin_users True demo_store =
       [\<lparr>uv_userId = ''A'', uv_latitude = 11, uv_longitude = 21, uv_accuracy = 0,
         uv_lastSeen = 300, uv_firstSeen = 100, uv_locationCount = 3\<rparr>,
        \<lparr>uv_userId = ''B'', uv_latitude = 50, uv_longitude = 60, uv_accuracy = 0,
         uv_lastSeen = 100, uv_firstSeen = 100, uv_locationCount = 1\<rparr>]"
    by (simp add: get_admin_users_def run_query_def aggregate_def group_stage_def
        sort_desc_def project_def demo_store_def demo_server_def report_def)
  have "map uv_userId (get_admin_users True demo_store) = [''A'', ''B'']"
    using C6_latest_per_subject[OF r] ids t by (simp add: Let_def)
  then show ?thesis
    using r ids n t v by simp
qed

section \<open>The history query\<close>

lemmas parseInt_defs =
  parseInt_def is_white_space_def radix_digit_def digit_value_def digits_value_def
  code_units_def

text \<open>
  C7, as stated: every non-positive limit falls back to the default. The limit
  \<^verbatim>\<open>-1\<close> does not: \<^verbatim>\<open>parseInt("-1") || 50\<close> is \<open>-1\<close>, and the answer is one report
  where the default limit gives all five.
\<close>

theorem C7_negative_limit_counterexample:
  "or_default (parseInt (Some (code_units ''-1''))) 50 = - 1
   \<and> get_locations True ''A'' (Some (code_units ''-1'')) history_store =
       [report ''A'' 14 24 500]
   \<and> length (get_locations True ''A'' None history_store) = 5"
  by (simp add: get_locations_def history_store_def demo_server_def run_query_def
      limit_docs_def sort_desc_def find_by_userId_def report_def or_default_def
      parseInt_defs)

text \<open>
  C7, amended. With the store connected and the read accepted,
  \<^verbatim>\<open>GET /api/locations/:userId\<close> applies the limit \<open>n = parseInt(limit) || 50\<close>: \<open>n\<close> is
  50 when the argument is absent, has no leading integer or parses to \<open>0\<close>, and is
  the parsed integer otherwise (also when negative). For \<open>0 < n < 2^53\<close>, where a
  JavaScript number is the exact integer, the answer is the \<open>min n k\<close> most recent of
  the \<open>k\<close> reports of the subject, newest first: it has that length, its timestamps
  descend, and every report of the subject left out is no newer than any report
  returned.
\<close>

theorem C7_history_most_recent_first:
  assumes up: "readyState s = 1"
  shows "let n = or_default (parseInt q) 50;
             docs = find_by_userId uid (locations s);
             res = get_locations True uid q s
         in (q = None \<or> parseInt q = None \<or> parseInt q = Some 0 \<longrightarrow> n = 50)
          \<and> (\<forall>k. parseInt q = Some k \<and> k \<noteq> 0 \<longrightarrow> n = k)
          \<and> (0 < n \<and> n < 2 ^ 53 \<longrightarrow>
                length res = min (nat n) (length docs)
              \<and> sorted_wrt (\<ge>) (map loc_timestamp res)
              \<and> (\<exists>rest. mset docs = mset res + mset rest
                    \<and> (\<forall>x \<in> set res. \<forall>y \<in> set rest.
                          loc_timestamp y \<le> loc_timestamp x)))"
proof -
  define n where "n = or_default (parseInt q) 50"
  define docs where "docs = find_by_userId uid (locations s)"
  define ys where "ys = sort_desc loc_timestamp docs"
  have a: "q = None \<or> parseInt q = None \<or> parseInt q = Some 0 \<longrightarrow> n = 50"
    by (auto simp: n_def or_default_def parseInt_def)
  have b: "\<forall>k. parseInt q = Some k \<and> k \<noteq> 0 \<longrightarrow> n = k"
    by (simp add: n_def or_default_def)
  have sorted: "sorted_wrt (\<ge>) (map loc_timestamp ys)"
    unfolding ys_def by (rule sorted_sort_desc)
  have c: "length (take (nat n) ys) = min (nat n) (length docs)
       \<and> sorted_wrt (\<ge>) (map loc_timestamp (take (nat n) ys))
       \<and> (\<exists>rest. mset docs = mset (take (nat n) ys) + mset rest
             \<and> (\<forall>x \<in> set (take (nat n) ys). \<forall>y \<in> set rest.
                   loc_timestamp y \<le> loc_timestamp x))"
  proof (intro conjI)
    show "length (take (nat n) ys) = min (nat n) (length docs)"
      by (simp add: ys_def min.commute)
    show "sorted_wrt (\<ge>) (map loc_timestamp (take (nat n) ys))"
      using sorted by (simp add: take_map[symmetric] sorted_wrt_take)
    have "mset docs = mset (take (nat n) ys) + mset (drop (nat n) ys)"
      by (simp add: ys_def flip: mset_append)
    then show "\<exists>rest. mset docs = mset (take (nat n) ys) + mset rest
             \<and> (\<forall>x \<in> set (take (nat n) ys). \<forall>y \<in> set rest.
                   loc_timestamp y \<le> loc_timestamp x)"
      using take_most_recent[OF sorted, of "nat n"] by blast
  qed
  have res: "0 < n \<Longrightarrow> get_locations True uid q s = take (nat n) ys"
    using up
    by (simp add: get_locations_def run_query_def limit_docs_def n_def ys_def docs_def)
  show ?thesis
    using a b c res
    unfolding Let_def n_def[symmetric] docs_def[symmetric] by simp
qed

theorem C7_history_most_recent_first_witness:
  "readyState history_store = 1
   \<and> or_default (parseInt (Some (code_units ''2''))) 50 = 2
   \<and> length (find_by_userId ''A'' (locations history_store)) = 5
   \<and> get_locations True ''A'' (Some (code_units ''2'')) history_store =
       [report ''A'' 14 24 500, report ''A'' 13 23 400]
   \<and> sorted_wrt (\<ge>)
        (map loc_timestamp (get_locations True ''A'' (Some (code_units ''2'')) history_store))
   \<and> or_default (parseInt (Some (160 # code_units ''2''))) 50 = 2
   \<and> get_locations True ''A'' (Some (160 # code_units ''2'')) history_store =
       [report ''A'' 14 24 500, report ''A'' 13 23 400]
   \<and> or_default (parseInt (Some (code_units ''abc''))) 50 = 50
   \<and> or_default (parseInt (Some (code_units ''0''))) 50 = 50
   \<and> or_default (parseInt None) 50 = 50"
proof -
  have p: "parseInt (Some (code_units ''2'')) = Some 2"
    "parseInt (Some (160 # code_units ''2'')) = Some 2"
    "parseInt (Some (code_units ''abc'')) = None"
    "parseInt (Some (code_units ''0'')) = Some 0" "parseInt None = None"
    by (simp_all add: parseInt_defs)
  have r: "readyState history_store = 1"
    by (simp add: history_store_def demo_server_def)
  have g: "get_locations True ''A'' (Some (code_units ''2'')) history_store =
       [report ''A'' 14 24 500, report ''A'' 13 23 400]"
    "get_locations True ''A'' (Some (160 # code_units ''2'')) history_store =
       [report ''A'' 14 24 500, report ''A'' 13 23 400]"
    by (simp_all add: get_locations_def history_store_def demo_server_def run_query_def
      limit_docs_def sort_desc_def find_by_userId_def report_def or_default_def p)
  have k: "length (find_by_userId ''A'' (locations history_store)) = 5"
    by (simp add: history_store_def find_by_userId_def report_def)
  show ?thesis
    using C7_history_most_recent_first[OF r, of "Some (code_units ''2'')" "''A''"]
      C7_history_most_recent_first[OF r, of "Some (160 # code_units ''2'')" "''A''"]
      C7_history_most_recent_first[OF r, of "Some (code_units ''abc'')" "''A''"]
      C7_history_most_recent_first[OF r, of "Some (code_units ''0'')" "''A''"]
      C7_history_most_recent_first[OF r, of None "''A''"]
    by (simp add: Let_def p r g k)
qed

section \<open>Queries that degrade\<close>

text \<open>
  C8. A read must degrade to the empty list and never answer an error.
  \<^verbatim>\<open>GET /api/admin/users\<close> on an empty collection answers the empty list; and when
  the store is not connected or the read is rejected, \<^verbatim>\<open>GET /api/admin/users\<close> and
  the history read \<^verbatim>\<open>GET /api/locations/:userId\<close> answer the empty list. The other
  history read, the admin timeline \<^verbatim>\<open>GET /api/admin/user/:userId\<close>, answers the
  empty list when the store is not connected, but when the store is connected and
  the read is rejected it answers the error.
\<close>

theorem C8_reads_degrade_to_empty:
  "(locations s = [] \<longrightarrow> get_admin_users read_ok s = [])
   \<and> (readyState s \<noteq> 1 \<or> \<not> read_ok \<longrightarrow>
        get_admin_users read_ok s = [] \<and> get_locations read_ok uid q s = [])
   \<and> (readyState s \<noteq> 1 \<longrightarrow> get_admin_user read_ok uid q s = Inr [])
   \<and> (readyState s = 1 \<longrightarrow> get_admin_user False uid q s = Inl ReadError)"
  by (auto simp: get_admin_users_def get_locations_def get_admin_user_def run_query_def
      aggregate_def group_stage_def sort_desc_def Let_def)

theorem C8_reads_degrade_to_empty_witness:
  "locations demo_server = [] \<and> get_admin_users True demo_server = []
   \<and> readyState (demo_store\<lparr>readyState := 0\<rparr>) \<noteq> 1
   \<and> get_admin_users True (demo_store\<lparr>readyState := 0\<rparr>) = []
   \<and> get_locations True ''A'' None (demo_store\<lparr>readyState := 0\<rparr>) = []
   \<and> get_admin_user True ''A'' None (demo_store\<lparr>readyState := 0\<rparr>) = Inr []
   \<and> get_admin_users False demo_store = []
   \<and> get_locations False ''A'' None demo_store = []
   \<and> readyState demo_store = 1
   \<and> get_admin_user False ''A'' None demo_store = Inl ReadError
   \<and> locations demo_store \<noteq> []"
  using C8_reads_degrade_to_empty[of demo_server True]
    C8_reads_degrade_to_empty[of "demo_store\<lparr>readyState := 0\<rparr>" True "''A''" None]
    C8_reads_degrade_to_empty[of demo_store False "''A''" None]
  by (simp add: demo_server_def demo_store_def)

section \<open>Socket ids stay distinct\<close>

text \<open>No handler gives two live sockets the same id, and the ingestion handlers
  leave the sockets as they are.\<close>

lemma post_location_sockets:
  "sockets (snd (post_location now w body s)) = sockets s"
  by (auto simp: post_location_def save_defs emit_defs
      split: option.splits sum.splits prod.splits)

lemma all_ids_update:
  "sock_id \<circ> (\<lambda>c. if sock_id c = sid then c\<lparr>sock_userId := u\<rparr> else c) = sock_id"
  "sock_id \<circ> (\<lambda>c. if sock_id c = sid then c\<lparr>in_admin_room := b\<rparr> else c) = sock_id"
  by (auto simp: fun_eq_iff)

lemma distinct_ids_preserved:
  assumes "distinct (all_ids s)"
  shows "distinct (all_ids (on_connection sid s))"
    and "distinct (all_ids (on_register_user now sid data s))"
    and "distinct (all_ids (on_join_admin_room sid s))"
    and "distinct (all_ids (on_disconnect now sid s))"
    and "distinct (all_ids (on_send_location now w loc s))"
    and "distinct (all_ids (snd (post_location now w body s)))"
proof -
  show "distinct (all_ids (on_connection sid s))"
    using assms by (simp add: on_connection_def all_ids_def)
  show "distinct (all_ids (on_register_user now sid data s))"
    using assms
    by (auto simp: on_register_user_def all_ids_def toString_def io_to_admin_emit_def
        set_userId_def all_ids_update split: option.splits)
  show "distinct (all_ids (on_join_admin_room sid s))"
    using assms by (simp add: on_join_admin_room_def all_ids_def all_ids_update)
  show "distinct (all_ids (on_disconnect now sid s))"
    using assms
    by (auto simp: on_disconnect_def all_ids_def io_to_admin_emit_def Let_def
        distinct_map_filter split: option.splits)
  show "distinct (all_ids (on_send_location now w loc s))"
    using assms by (simp add: all_ids_def on_send_location_sockets)
  show "distinct (all_ids (snd (post_location now w body s)))"
    using assms by (simp add: all_ids_def post_location_sockets)
qed

end
